theory Spec2Isabelle
  imports Complex_Main "HOL-Library.Word"
begin

section \<open>Values of the disaggregation calculator\<close>

text \<open>
  The calculator of \<^verbatim>\<open>openquake/calculators/disaggregation.py\<close> works on Python
  floats and on numpy arrays of them. Exceptions are values of the type \<open>error\<close>, and
  a function that may raise returns \<open>error + 'a\<close> with \<open>Inl\<close> for the exception.
\<close>

datatype error =
    IndexError
  | KeyError
  | TypeError
  | ValueError string
  | AssertionError
  | SystemExit string

subsection \<open>Floating-point numbers\<close>

text \<open>
  A Python float and a cell of a numpy array of type \<^verbatim>\<open>float64\<close> is an IEEE 754
  binary64 number: a finite number \<open>Fin x\<close>, an infinity or a NaN. The two zeros of
  the format compare equal and no operation used here tells them apart, so both are
  \<open>Fin 0\<close>. A literal such as \<^verbatim>\<open>1.\<close> is \<open>Fin 1\<close>; the Python integer \<^verbatim>\<open>0\<close> is converted
  to \<open>Fin 0\<close> by the first operation with a float. A value \<open>Fin x\<close> is a float when \<open>x\<close>
  is a number of the format, that is when \<open>fl x = Fin x\<close>.

  Every operation gives the exact result rounded to the nearest number of the format,
  ties to the even significand. \<open>binade x\<close> is the exponent of the binade \<open>x\<close> lies
  in (at least \<open>- 1022\<close>, where the subnormal numbers begin), \<open>ulp x\<close> the distance of
  two neighbours of the format there (the significand has 53 bits), \<open>round64\<close> the
  rounding without a bound on the exponent, and \<open>fl\<close> the rounding of the format,
  which overflows to an infinity from \<open>2 ^ 1024\<close> on.
\<close>

datatype double = Fin real | PInf | NInf | NaN

definition round_half_even :: "real \<Rightarrow> int" where
  "round_half_even x =
     (let f = \<lfloor>x\<rfloor>; d = x - of_int f
      in if d < 1 / 2 then f else if 1 / 2 < d then f + 1 else if even f then f else f + 1)"

definition binade :: "real \<Rightarrow> int" where
  "binade x = max \<lfloor>log 2 \<bar>x\<bar>\<rfloor> (- 1022)"

definition ulp :: "real \<Rightarrow> real" where
  "ulp x = 2 powi (binade x - 52)"

definition round64 :: "real \<Rightarrow> real" where
  "round64 x = (if x = 0 then 0 else ulp x * of_int (round_half_even (x / ulp x)))"

definition fl :: "real \<Rightarrow> double" where
  "fl x = (let r = round64 x
           in if 2 ^ 1024 \<le> r then PInf else if r \<le> - (2 ^ 1024) then NInf else Fin r)"

text \<open>
  \<^verbatim>\<open>a - b\<close> and \<^verbatim>\<open>a * b\<close> on floats. A NaN operand gives NaN, and so do the
  difference of two equal infinities and the product of an infinity and zero;
  neither operation raises.
\<close>

fun dsub :: "double \<Rightarrow> double \<Rightarrow> double" where
  "dsub (Fin x) (Fin y) = fl (x - y)"
| "dsub NaN b = NaN"
| "dsub a NaN = NaN"
| "dsub PInf PInf = NaN"
| "dsub NInf NInf = NaN"
| "dsub PInf b = PInf"
| "dsub NInf b = NInf"
| "dsub (Fin x) PInf = NInf"
| "dsub (Fin x) NInf = PInf"

definition dneg :: "double \<Rightarrow> double" where
  "dneg a = (case a of Fin x \<Rightarrow> Fin (- x) | PInf \<Rightarrow> NInf | NInf \<Rightarrow> PInf | NaN \<Rightarrow> NaN)"

definition scaled_inf :: "double \<Rightarrow> real \<Rightarrow> double" where
  "scaled_inf a x = (if x = 0 then NaN else if 0 < x then a else dneg a)"

fun dmul :: "double \<Rightarrow> double \<Rightarrow> double" where
  "dmul (Fin x) (Fin y) = fl (x * y)"
| "dmul NaN b = NaN"
| "dmul a NaN = NaN"
| "dmul (Fin x) b = scaled_inf b x"
| "dmul a (Fin y) = scaled_inf a y"
| "dmul PInf b = b"
| "dmul NInf b = dneg b"

subsection \<open>Arrays\<close>

text \<open>
  A Python float is \<open>Scalar\<close>; a numpy array of one or more dimensions is \<open>Array\<close>
  with its shape and its cells in row-major (C) order, as numpy stores them. A
  zero-dimensional array behaves as a scalar in every operation used here and is
  written \<open>Scalar\<close> too.
\<close>

datatype ndarray = Scalar double | Array "nat list" "double list"

fun wf :: "ndarray \<Rightarrow> bool" where
  "wf (Scalar x) = True"
| "wf (Array s cs) = (s \<noteq> [] \<and> length cs = prod_list s)"

fun shape :: "ndarray \<Rightarrow> nat list" where
  "shape (Scalar x) = []"
| "shape (Array s cs) = s"

fun cells :: "ndarray \<Rightarrow> double list" where
  "cells (Scalar x) = [x]"
| "cells (Array s cs) = cs"

text \<open>\<^verbatim>\<open>a.any()\<close>: some cell is not zero (an infinity and a NaN are not zero).\<close>

definition any_nonzero :: "ndarray \<Rightarrow> bool" where
  "any_nonzero a = list_ex (\<lambda>x. x \<noteq> Fin 0) (cells a)"

text \<open>\<^verbatim>\<open>1. - a\<close>, cell by cell; the result is a new array.\<close>

fun rsub1 :: "ndarray \<Rightarrow> ndarray" where
  "rsub1 (Scalar x) = Scalar (dsub (Fin 1) x)"
| "rsub1 (Array s cs) = Array s (map (dsub (Fin 1)) cs)"

subsection \<open>Broadcasting\<close>

text \<open>
  numpy aligns two shapes at their last dimension; a dimension of the operand fits
  the target when it is equal to it or is 1 (then its single entry is repeated).
  \<open>unravel\<close> turns a flat row-major position into a multi-index, \<open>ravel\<close> reads a cell
  of the operand at a multi-index of the target, with stride 0 on a repeated
  dimension.
\<close>

fun unravel :: "nat list \<Rightarrow> nat \<Rightarrow> nat list" where
  "unravel [] k = []"
| "unravel (d # ds) k = (k div prod_list ds) # unravel ds (k mod prod_list ds)"

fun ravel :: "nat list \<Rightarrow> nat list \<Rightarrow> nat" where
  "ravel (d # ds) (i # is) = (if d = 1 then 0 else i) * prod_list ds + ravel ds is"
| "ravel ds is = 0"

definition broadcastable :: "nat list \<Rightarrow> nat list \<Rightarrow> bool" where
  "broadcastable s t =
     (length s \<le> length t \<and>
      list_all2 (\<lambda>d e. d = e \<or> d = 1) s (drop (length t - length s) t))"

definition broadcast_cells :: "nat list \<Rightarrow> nat list \<Rightarrow> 'a list \<Rightarrow> 'a list" where
  "broadcast_cells t s cs =
     map (\<lambda>k. cs ! ravel s (drop (length t - length s) (unravel t k))) [0..<prod_list t]"

text \<open>
  \<^verbatim>\<open>acc *= x\<close>. When \<open>acc\<close> is a Python float the statement rebinds \<open>acc\<close> to the
  product \<open>acc * x\<close>, which has the shape of \<open>x\<close>. When \<open>acc\<close> is an array the product
  is written into \<open>acc\<close> itself, so \<open>x\<close> has to broadcast to the shape of \<open>acc\<close>;
  numpy raises \<^verbatim>\<open>ValueError\<close> otherwise.
\<close>

fun imul :: "ndarray \<Rightarrow> ndarray \<Rightarrow> error + ndarray" where
  "imul (Scalar a) (Scalar b) = Inr (Scalar (dmul a b))"
| "imul (Scalar a) (Array t ds) = Inr (Array t (map (dmul a) ds))"
| "imul (Array s cs) (Scalar b) = Inr (Array s (map (\<lambda>x. dmul x b) cs))"
| "imul (Array s cs) (Array t ds) =
     (if broadcastable t s
      then Inr (Array s (map2 dmul cs (broadcast_cells s t ds)))
      else Inl (ValueError ''operands could not be broadcast together''))"

section \<open>The probability combiner\<close>

text \<open>
  \<^verbatim>\<open>
  def agg_probs(*probs):
      acc = 1. - probs[0]
      for prob in probs[1:]:
          acc *= 1. - prob
      return 1. - acc
  \<close>
  \<open>agg_loop\<close> is the \<^verbatim>\<open>for\<close> loop; \<^verbatim>\<open>probs[0]\<close> of an empty argument list raises
  \<^verbatim>\<open>IndexError\<close>. Every subtraction and every product is rounded.
\<close>

fun agg_loop :: "ndarray \<Rightarrow> ndarray list \<Rightarrow> error + ndarray" where
  "agg_loop acc [] = Inr acc"
| "agg_loop acc (prob # probs) =
     (case imul acc (rsub1 prob) of
        Inl e \<Rightarrow> Inl e
      | Inr acc' \<Rightarrow> agg_loop acc' probs)"

definition agg_probs :: "ndarray list \<Rightarrow> error + ndarray" where
  "agg_probs probs =
     (case probs of
        [] \<Rightarrow> Inl IndexError
      | p0 # rest \<Rightarrow>
          (case agg_loop (rsub1 p0) rest of
             Inl e \<Rightarrow> Inl e
           | Inr acc \<Rightarrow> Inr (rsub1 acc)))"

section \<open>The result aggregator\<close>

text \<open>
  A task returns a dictionary \<^verbatim>\<open>{'trti': trti, 'magi': magi, 'imti': imti, sid: matrix}\<close>:
  three tags and the 6-D matrices by site id. \<open>sites\<close> lists the items that stay after
  the three tags are popped, in the order of the dictionary.
\<close>

record result =
  trti :: nat
  magi :: int
  imti :: nat
  sites :: "(nat \<times> ndarray) list"

text \<open>The accumulator: \<^verbatim>\<open>imti, sid -> trti, magi -> 6D array\<close>.\<close>

type_synonym slots = "(nat \<times> int) \<rightharpoonup> ndarray"
type_synonym accum = "(nat \<times> nat) \<rightharpoonup> slots"

text \<open>
  Modelled from the spec: \<^verbatim>\<open>AccumDict(accum={})\<close> of \<^verbatim>\<open>openquake.baselib.general\<close>,
  the mapping the reduction starts from. Reading a key that is absent gives the
  default, an empty mapping (``must tolerate absent prior values'').
\<close>

definition accum_get :: "accum \<Rightarrow> nat \<times> nat \<Rightarrow> slots" where
  "accum_get acc k = (case acc k of None \<Rightarrow> Map.empty | Some d \<Rightarrow> d)"

text \<open>
  \<^verbatim>\<open>
  for sid, probs in result.items():
      before = acc[imti, sid].get((trti, magi), 0)
      acc[imti, sid][trti, magi] = agg_probs(before, probs)
  \<close>
  \<open>agg_site\<close> is the body of the loop, \<open>agg_sites\<close> the loop.
\<close>

definition agg_site :: "nat \<Rightarrow> nat \<Rightarrow> int \<Rightarrow> accum \<Rightarrow> nat \<times> ndarray \<Rightarrow> error + accum" where
  "agg_site imti' trti' magi' acc item =
     (let sid = fst item;
          probs = snd item;
          slots = accum_get acc (imti', sid);
          before = (case slots (trti', magi') of None \<Rightarrow> Scalar (Fin 0) | Some b \<Rightarrow> b)
      in case agg_probs [before, probs] of
           Inl e \<Rightarrow> Inl e
         | Inr v \<Rightarrow> Inr (acc((imti', sid) \<mapsto> slots((trti', magi') \<mapsto> v))))"

fun agg_sites :: "nat \<Rightarrow> nat \<Rightarrow> int \<Rightarrow> accum \<Rightarrow> (nat \<times> ndarray) list \<Rightarrow> error + accum" where
  "agg_sites imti' trti' magi' acc [] = Inr acc"
| "agg_sites imti' trti' magi' acc (item # items) =
     (case agg_site imti' trti' magi' acc item of
        Inl e \<Rightarrow> Inl e
      | Inr acc' \<Rightarrow> agg_sites imti' trti' magi' acc' items)"

definition agg_result :: "accum \<Rightarrow> result \<Rightarrow> error + accum" where
  "agg_result acc res = agg_sites (imti res) (trti res) (magi res) acc (sites res)"

text \<open>The cell of a slot, for stating what a merge stores.\<close>

definition slot :: "accum \<Rightarrow> nat \<times> nat \<Rightarrow> nat \<times> int \<Rightarrow> ndarray option" where
  "slot acc k b = accum_get acc k b"

section \<open>Slices of an array\<close>

text \<open>
  \<^verbatim>\<open>*matrix\<close>: an array unpacks into its slices along the first axis, the entries of a
  one-dimensional array being numbers; numpy refuses to iterate over a
  zero-dimensional one (\<^verbatim>\<open>TypeError\<close>).
\<close>

fun unpack :: "ndarray \<Rightarrow> error + ndarray list" where
  "unpack (Scalar x) = Inl TypeError"
| "unpack (Array [] cs) = Inl TypeError"
| "unpack (Array [n] cs) = Inr (map (\<lambda>i. Scalar (cs ! i)) [0..<n])"
| "unpack (Array (n # d # ds) cs) =
     Inr (map (\<lambda>i. Array (d # ds)
                  (take (prod_list (d # ds)) (drop (i * prod_list (d # ds)) cs)))
            [0..<n])"

text \<open>\<^verbatim>\<open>agg_probs(*matrix)\<close>: the first axis is combined away.\<close>

definition agg_probs_unpacked :: "ndarray \<Rightarrow> error + ndarray" where
  "agg_probs_unpacked matrix =
     (case unpack matrix of
        Inl e \<Rightarrow> Inl e
      | Inr slices \<Rightarrow> agg_probs slices)"

text \<open>
  \<^verbatim>\<open>mat8[..., p, :]\<close> keeps position \<open>p\<close> of the last axis but one, \<^verbatim>\<open>mat7[..., z]\<close>
  position \<open>z\<close> of the last axis. An index outside the axis, or an array with too few
  axes, raises \<^verbatim>\<open>IndexError\<close>.
\<close>

fun take_poe :: "ndarray \<Rightarrow> nat \<Rightarrow> error + ndarray" where
  "take_poe (Scalar x) p = Inl IndexError"
| "take_poe (Array s cs) p =
     (if length s < 2 then Inl IndexError
      else let Z = last s; P = last (butlast s); outer = butlast (butlast s)
           in if P \<le> p then Inl IndexError
              else Inr (Array (outer @ [Z])
                         (concat (map (\<lambda>o'. take Z (drop ((o' * P + p) * Z) cs))
                                      [0..<prod_list outer]))))"

fun take_rlz :: "ndarray \<Rightarrow> nat \<Rightarrow> error + ndarray" where
  "take_rlz (Scalar x) z = Inl IndexError"
| "take_rlz (Array s cs) z =
     (if s = [] then Inl IndexError
      else let Z = last s; outer = butlast s
           in if Z \<le> z then Inl IndexError
              else if outer = [] then Inr (Scalar (cs ! z))
              else Inr (Array outer (map (\<lambda>o'. cs ! (o' * Z + z)) [0..<prod_list outer])))"

section \<open>Formatting\<close>

text \<open>\<^verbatim>\<open>'%d' % n\<close>: the decimal digits of an integer, with a minus sign when negative.\<close>

definition digit_char :: "nat \<Rightarrow> char" where
  "digit_char n = ''0123456789'' ! n"

function show_nat :: "nat \<Rightarrow> string" where
  "show_nat n =
     (if n < 10 then [digit_char n] else show_nat (n div 10) @ [digit_char (n mod 10)])"
  by pat_completeness auto
termination
  by (relation "measure (\<lambda>n. n)") auto

declare show_nat.simps [simp del]

definition show_int :: "int \<Rightarrow> string" where
  "show_int i = (if i < 0 then CHR ''-'' # show_nat (nat (- i)) else show_nat (nat i))"

section \<open>Magnitude bins of the ruptures\<close>

text \<open>
  \<^verbatim>\<open>numpy.searchsorted(a, v)\<close> with the default \<^verbatim>\<open>side='left'\<close>: for a sorted array
  the position \<open>i\<close> with \<^verbatim>\<open>a[i-1] < v <= a[i]\<close>, that is the number of leading entries
  below \<open>v\<close>.
\<close>

definition searchsorted :: "real list \<Rightarrow> real \<Rightarrow> nat" where
  "searchsorted a v = length (takeWhile (\<lambda>x. x < v) a)"

text \<open>\<^verbatim>\<open>magi = numpy.searchsorted(mag_edges, mag) - 1\<close>\<close>

definition mag_bin :: "real list \<Rightarrow> real \<Rightarrow> int" where
  "mag_bin mag_edges mag = int (searchsorted mag_edges mag) - 1"

text \<open>
  \<^verbatim>\<open>
  def get_indices_by_gidx_mag(dstore, mag_edges):
      acc = AccumDict(accum=[])  # gidx, magi -> indices
      df = pandas.DataFrame(dict(gidx=dstore['rup/grp_id'][:],
                                 mag=dstore['rup/mag'][:]))
      for (gidx, mag), d in df.groupby(['gidx', 'mag']):
          magi = numpy.searchsorted(mag_edges, mag) - 1
          acc[gidx, magi].extend(d.index)
      return {gm: sorted(idxs) for gm, idxs in acc.items()}
  \<close>
  The two columns of the rupture store are the lists \<open>grp_id\<close> and \<open>mags\<close>; a row is a
  rupture index. \<open>groups\<close> are the distinct pairs of the data frame, \<open>group_rows\<close> the
  rows of one pair (\<^verbatim>\<open>d.index\<close>). Every value of the result is sorted at the end, so
  the order in which the groups are visited does not show in it.
\<close>

definition groups :: "nat list \<Rightarrow> real list \<Rightarrow> (nat \<times> real) list" where
  "groups grp_id mags = remdups (zip grp_id mags)"

definition group_rows :: "nat list \<Rightarrow> real list \<Rightarrow> nat \<times> real \<Rightarrow> nat list" where
  "group_rows grp_id mags g =
     filter (\<lambda>i. (grp_id ! i, mags ! i) = g) [0..<min (length grp_id) (length mags)]"

definition extend_group ::
  "real list \<Rightarrow> nat list \<Rightarrow> real list \<Rightarrow> nat \<times> real \<Rightarrow>
   ((nat \<times> int) \<rightharpoonup> nat list) \<Rightarrow> ((nat \<times> int) \<rightharpoonup> nat list)" where
  "extend_group mag_edges grp_id mags g acc =
     (let key = (fst g, mag_bin mag_edges (snd g));
          old = (case acc key of None \<Rightarrow> [] | Some idxs \<Rightarrow> idxs)
      in acc(key \<mapsto> old @ group_rows grp_id mags g))"

definition get_indices_by_gidx_mag ::
  "nat list \<Rightarrow> real list \<Rightarrow> real list \<Rightarrow> ((nat \<times> int) \<rightharpoonup> nat list)" where
  "get_indices_by_gidx_mag grp_id mags mag_edges =
     map_option sort \<circ>
       fold (extend_group mag_edges grp_id mags) (groups grp_id mags) Map.empty"

text \<open>
  \<^verbatim>\<open>
  def _matrix(matrices, num_trts, num_mag_bins):
      trti, magi = next(iter(matrices))
      mat = numpy.zeros((num_trts, num_mag_bins) + matrices[trti, magi].shape)
      for trti, magi in matrices:
          mat[trti, magi] = matrices[trti, magi]
      return mat
  \<close>
  Only the position that \<^verbatim>\<open>mat[trti, magi]\<close> writes to matters below: numpy counts a
  negative index from the end of the axis and raises \<^verbatim>\<open>IndexError\<close> outside
  \<^verbatim>\<open>-n .. n-1\<close>.
\<close>

definition axis_index :: "nat \<Rightarrow> int \<Rightarrow> error + nat" where
  "axis_index n i =
     (if 0 \<le> i \<and> i < int n then Inr (nat i)
      else if - int n \<le> i \<and> i < 0 then Inr (nat (int n + i))
      else Inl IndexError)"

section \<open>Limits checked before the run\<close>

text \<open>
  \<^verbatim>\<open>
  def init(self):
      if self.N >= 32768:
          raise ValueError('You can disaggregate at max 32,768 sites')
      few = self.oqparam.max_sites_disagg
      if self.N > few:
          raise ValueError(
              'The number of sites is to disaggregate is %d, but you have '
              'max_sites_disagg=%d' % (self.N, few))
      super().init()
  \<close>
  The initialisation of the base calculator is the parameter \<open>super_init\<close>.
\<close>

definition init :: "('s \<Rightarrow> error + 's) \<Rightarrow> nat \<Rightarrow> int \<Rightarrow> 's \<Rightarrow> error + 's" where
  "init super_init N few self =
     (if N \<ge> 32768 then Inl (ValueError ''You can disaggregate at max 32,768 sites'')
      else if int N > few then
        Inl (ValueError (''The number of sites is to disaggregate is '' @ show_nat N @
                         '', but you have max_sites_disagg='' @ show_int few))
      else super_init self)"

section \<open>Saving the probability mass functions\<close>

text \<open>
  The datastore maps a dataset name to the array stored under it. The bin edges are
  \<^verbatim>\<open>self.bin_edges\<close>: magnitudes, distances, longitudes and latitudes by site id, and
  epsilons.
\<close>

type_synonym datastore = "string \<rightharpoonup> ndarray"

record bin_edges =
  mag_edges :: "real list"
  dist_edges :: "real list"
  lon_edges :: "nat \<rightharpoonup> real list"
  lat_edges :: "nat \<rightharpoonup> real list"
  eps_edges :: "real list"

text \<open>A realization is an index or the string \<^verbatim>\<open>'mean'\<close>.\<close>

datatype rlz_ref = Rlz int | Mean

text \<open>
  What the calculator holds when it saves: \<^verbatim>\<open>oqparam.disagg_outputs\<close>, the table
  \<^verbatim>\<open>disagg.pmf_map\<close> of the hazard library (name and extraction function, in the order
  of the dictionary; a parameter here), \<^verbatim>\<open>self.poe_id\<close>, the coordinates of the
  sites, the bin edges, the names of the intensity measure types, the realizations
  chosen for every site, the weights of the realizations by intensity measure type,
  \<^verbatim>\<open>self.poes_disagg\<close> and \<^verbatim>\<open>self.Z\<close>.

  The last four fields are the library functions the saving calls, parameters as
  well: \<open>np_sum\<close> is \<^verbatim>\<open>weights.sum()\<close>, \<open>np_divide\<close> the quotient of two floats of
  \<^verbatim>\<open>weights /= ...\<close>, \<open>np_average mat7 weights\<close> is
  \<^verbatim>\<open>numpy.average(mat7, -1, weights)\<close> (the order in which numpy adds up the terms is
  its own), and \<open>set_attrs\<close> is \<^verbatim>\<open>self.datastore.set_attrs('disagg', **attrs)\<close>.
\<close>

record calc =
  disagg_outputs :: "string list"
  pmf_map :: "(string \<times> (ndarray \<Rightarrow> ndarray)) list"
  poe_id :: "double option \<rightharpoonup> nat"
  site_lons :: "real list"
  site_lats :: "real list"
  calc_edges :: bin_edges
  imts :: "string list"
  rlzs :: "int list list"
  ws :: "(string \<Rightarrow> double) list"
  poes_disagg :: "double option list"
  num_Z :: nat
  np_sum :: "double list \<Rightarrow> double"
  np_divide :: "double \<Rightarrow> double \<Rightarrow> double"
  np_average :: "ndarray \<Rightarrow> double list \<Rightarrow> error + ndarray"
  set_attrs :: "datastore \<Rightarrow> error + datastore"

definition endswith :: "string \<Rightarrow> string \<Rightarrow> bool" where
  "endswith s suffix =
     (length suffix \<le> length s \<and> drop (length s - length suffix) s = suffix)"

text \<open>
  \<^verbatim>\<open>
  try:
      rlz = 'rlz-%d-' % rlz_id
  except TypeError:  # for the mean
      rlz = ''
  disp_name = dskey + '/' + DISAGG_RES_FMT % dict(
      rlz=rlz, imt=imt_str, sid='sid-%d' % site_id,
      poe='poe-%d' % self.poe_id[poe])
  \<close>
  with \<^verbatim>\<open>DISAGG_RES_FMT = '%(rlz)s%(imt)s-%(sid)s-%(poe)s/'\<close>.
\<close>

definition rlz_prefix :: "rlz_ref \<Rightarrow> string" where
  "rlz_prefix r = (case r of Rlz i \<Rightarrow> ''rlz-'' @ show_int i @ ''-'' | Mean \<Rightarrow> [])"

definition disp_name :: "string \<Rightarrow> rlz_ref \<Rightarrow> string \<Rightarrow> nat \<Rightarrow> nat \<Rightarrow> string" where
  "disp_name dskey r imt_str site_id pid =
     dskey @ ''/'' @ rlz_prefix r @ imt_str @ ''-'' @ (''sid-'' @ show_nat site_id) @ ''-'' @
     (''poe-'' @ show_nat pid) @ ''/''"

text \<open>
  \<^verbatim>\<open>
  aggmatrix = agg_probs(*matrix6)
  for key, fn in disagg.pmf_map.items():
      if not disagg_outputs or key in disagg_outputs:
          pmf = fn(matrix6 if key.endswith('TRT') else aggmatrix)
          self.datastore[disp_name + key] = pmf
          poe_agg.append(1. - numpy.prod(1. - pmf))
  \<close>
  \<open>store_pmfs\<close> is the loop over the table.
\<close>

definition requested :: "string list \<Rightarrow> string \<Rightarrow> bool" where
  "requested outputs key = (outputs = [] \<or> key \<in> set outputs)"

fun store_pmfs ::
  "string list \<Rightarrow> string \<Rightarrow> ndarray \<Rightarrow> ndarray \<Rightarrow>
   (string \<times> (ndarray \<Rightarrow> ndarray)) list \<Rightarrow> datastore \<Rightarrow> datastore" where
  "store_pmfs outputs name matrix6 aggmatrix [] ds = ds"
| "store_pmfs outputs name matrix6 aggmatrix ((key, fn) # rest) ds =
     store_pmfs outputs name matrix6 aggmatrix rest
       (if requested outputs key
        then ds(name @ key \<mapsto> fn (if endswith key ''TRT'' then matrix6 else aggmatrix))
        else ds)"

text \<open>
  \<^verbatim>\<open>_save(self, dskey, site_id, rlz_id, poe, imt_str, matrix6)\<close> up to the end of the
  block \<^verbatim>\<open>extracting PMFs\<close>: the coordinates of the site, the name of the group, the
  bin edges of the site and the datasets. The attributes that \<^verbatim>\<open>_save\<close> attaches to
  the group afterwards store no dataset and are not part of the model.
\<close>

definition save ::
  "calc \<Rightarrow> string \<Rightarrow> nat \<Rightarrow> rlz_ref \<Rightarrow> double option \<Rightarrow> string \<Rightarrow> ndarray \<Rightarrow>
   datastore \<Rightarrow> error + datastore" where
  "save self dskey site_id rlz_id poe imt_str matrix6 ds =
     (if length (site_lons self) \<le> site_id \<or> length (site_lats self) \<le> site_id
      then Inl IndexError
      else case poe_id self poe of
        None \<Rightarrow> Inl KeyError
      | Some pid \<Rightarrow>
          (if lon_edges (calc_edges self) site_id = None \<or> lat_edges (calc_edges self) site_id = None
           then Inl KeyError
           else case agg_probs_unpacked matrix6 of
             Inl e \<Rightarrow> Inl e
           | Inr aggmatrix \<Rightarrow>
               Inr (store_pmfs (disagg_outputs self)
                      (disp_name dskey rlz_id imt_str site_id pid)
                      matrix6 aggmatrix (pmf_map self) ds)))"

text \<open>
  \<^verbatim>\<open>
  def save_disagg_results(self, results, **attrs):
      imts = list(self.oqparam.imtls)
      for (m, s), mat8 in results.items():
          imt = imts[m]
          rlzs = self.rlzs[s]
          many_rlzs = len(rlzs) > 1
          if many_rlzs:  # rescale the weights
              weights = numpy.array([self.ws[r][imt] for r in rlzs])
              weights /= weights.sum()  # normalize to 1
          for p, poe in enumerate(self.poes_disagg):
              mat7 = mat8[..., p, :]
              for z in range(self.Z):
                  mat6 = mat7[..., z]
                  if mat6.any():  # nonzero
                      self._save('disagg', s, rlzs[z], poe, imt, mat6)
              if many_rlzs:  # compute the mean matrices
                  mean = numpy.average(mat7, -1, weights)
                  if mean.any():  # nonzero
                      self._save('disagg', s, 'mean', poe, imt, mean)
      self.datastore.set_attrs('disagg', **attrs)
  \<close>
  Each loop is a fold that stops at the first exception; each loop body is a
  definition of its own.
\<close>

fun efold :: "('a \<Rightarrow> 's \<Rightarrow> error + 's) \<Rightarrow> 'a list \<Rightarrow> 's \<Rightarrow> error + 's" where
  "efold f [] s = Inr s"
| "efold f (x # xs) s = (case f x s of Inl e \<Rightarrow> Inl e | Inr s' \<Rightarrow> efold f xs s')"

text \<open>A Python list read at an integer: a negative index counts from the end.\<close>

definition py_nth :: "'a list \<Rightarrow> int \<Rightarrow> error + 'a" where
  "py_nth xs i = (case axis_index (length xs) i of Inl e \<Rightarrow> Inl e | Inr k \<Rightarrow> Inr (xs ! k))"

text \<open>
  \<^verbatim>\<open>[self.ws[r][imt] for r in rlzs]\<close>, the weights of the chosen realizations, and
  \<^verbatim>\<open>weights /= weights.sum()\<close>, every weight divided by their sum. The division raises
  nothing, whatever the sum.
\<close>

fun rlz_weights :: "(string \<Rightarrow> double) list \<Rightarrow> string \<Rightarrow> int list \<Rightarrow> error + double list" where
  "rlz_weights wts imt [] = Inr []"
| "rlz_weights wts imt (r # rs) =
     (case py_nth wts r of
        Inl e \<Rightarrow> Inl e
      | Inr w \<Rightarrow> (case rlz_weights wts imt rs of
                    Inl e \<Rightarrow> Inl e
                  | Inr rest \<Rightarrow> Inr (w imt # rest)))"

definition normalize :: "calc \<Rightarrow> double list \<Rightarrow> double list" where
  "normalize self w = map (\<lambda>x. np_divide self x (np_sum self w)) w"

text \<open>The body of \<^verbatim>\<open>for z in range(self.Z)\<close>.\<close>

definition save_rlz ::
  "calc \<Rightarrow> nat \<Rightarrow> int list \<Rightarrow> double option \<Rightarrow> string \<Rightarrow> ndarray \<Rightarrow> nat \<Rightarrow>
   datastore \<Rightarrow> error + datastore" where
  "save_rlz self s row poe imt mat7 z ds =
     (case take_rlz mat7 z of
        Inl e \<Rightarrow> Inl e
      | Inr mat6 \<Rightarrow>
          if any_nonzero mat6
          then (if z < length row
                then save self ''disagg'' s (Rlz (row ! z)) poe imt mat6 ds
                else Inl IndexError)
          else Inr ds)"

text \<open>\<^verbatim>\<open>if many_rlzs:  # compute the mean matrices\<close>\<close>

definition save_mean ::
  "calc \<Rightarrow> nat \<Rightarrow> double option \<Rightarrow> string \<Rightarrow> ndarray \<Rightarrow> double list \<Rightarrow>
   datastore \<Rightarrow> error + datastore" where
  "save_mean self s poe imt mat7 weights ds =
     (case np_average self mat7 weights of
        Inl e \<Rightarrow> Inl e
      | Inr mean \<Rightarrow>
          if any_nonzero mean
          then save self ''disagg'' s Mean poe imt mean ds
          else Inr ds)"

text \<open>The body of \<^verbatim>\<open>for p, poe in enumerate(self.poes_disagg)\<close>.\<close>

definition save_poe ::
  "calc \<Rightarrow> nat \<Rightarrow> int list \<Rightarrow> double list option \<Rightarrow> string \<Rightarrow> ndarray \<Rightarrow>
   nat \<times> double option \<Rightarrow> datastore \<Rightarrow> error + datastore" where
  "save_poe self s row weights imt mat8 ppoe ds =
     (case take_poe mat8 (fst ppoe) of
        Inl e \<Rightarrow> Inl e
      | Inr mat7 \<Rightarrow>
          (case efold (save_rlz self s row (snd ppoe) imt mat7) [0..<num_Z self] ds of
             Inl e \<Rightarrow> Inl e
           | Inr ds' \<Rightarrow>
               (case weights of
                  None \<Rightarrow> Inr ds'
                | Some w \<Rightarrow> save_mean self s (snd ppoe) imt mat7 w ds')))"

text \<open>The body of \<^verbatim>\<open>for (m, s), mat8 in results.items()\<close>.\<close>

definition save_result ::
  "calc \<Rightarrow> (nat \<times> nat) \<times> ndarray \<Rightarrow> datastore \<Rightarrow> error + datastore" where
  "save_result self item ds =
     (let m = fst (fst item); s = snd (fst item); mat8 = snd item
      in if length (imts self) \<le> m \<or> length (rlzs self) \<le> s then Inl IndexError
         else let imt = imts self ! m; row = rlzs self ! s;
                  loop = (\<lambda>weights. efold (save_poe self s row weights imt mat8)
                                       (enumerate 0 (poes_disagg self)) ds)
              in if length row > 1
                 then (case rlz_weights (ws self) imt row of
                         Inl e \<Rightarrow> Inl e
                       | Inr w \<Rightarrow> loop (Some (normalize self w)))
                 else loop None)"

text \<open>The loop over the results, then the attributes of the group.\<close>

definition save_disagg_results ::
  "calc \<Rightarrow> ((nat \<times> nat) \<times> ndarray) list \<Rightarrow> datastore \<Rightarrow> error + datastore" where
  "save_disagg_results self results ds =
     (case efold (save_result self) results ds of
        Inl e \<Rightarrow> Inl e
      | Inr ds' \<Rightarrow> set_attrs self ds')"

section \<open>The task\<close>

text \<open>
  \<^verbatim>\<open>compute_disagg\<close> reads the ruptures from the rupture store and hands them to the
  hazard library. Both are collaborators and come in as parameters:
  \<open>rrup sid\<close> is the column \<^verbatim>\<open>rupdata['rrup_'][:, sid]\<close>, \<open>mk_ctx u sid\<close> the rupture context
  built for rupture \<open>u\<close> and the site, \<open>zs_by_gsim sid\<close> the realizations by ground
  motion model, \<open>disaggregate\<close> and \<open>build_disagg_matrix\<close> the functions of that name,
  \<open>pnes_sum\<close> is \<^verbatim>\<open>bdata.pnes.sum()\<close> and \<open>bins sid\<close> the bin edges of the site.
\<close>

record ('ctx, 'zs, 'iml2, 'bdata, 'bins) collaborators =
  rrup :: "nat \<Rightarrow> real list"
  maxdist :: real
  mk_ctx :: "nat \<Rightarrow> nat \<Rightarrow> 'ctx"
  zs_by_gsim :: "nat \<Rightarrow> 'zs"
  disaggregate :: "'ctx list \<Rightarrow> 'zs \<Rightarrow> 'iml2 \<Rightarrow> 'bdata"
  pnes_sum :: "'bdata \<Rightarrow> real"
  build_disagg_matrix :: "'bdata \<Rightarrow> 'bins \<Rightarrow> ndarray"
  bins :: "nat \<Rightarrow> 'bins"



section \<open>The hazard curves against the requested probabilities\<close>













section \<open>The size of the disaggregation matrix\<close>

text \<open>
  \<^verbatim>\<open>numpy.prod\<close> of a list of Python integers multiplies in 64-bit signed integers
  (the array made from the list has the type \<^verbatim>\<open>int64\<close>) and wraps around without an
  error; \<open>sint\<close> reads the result.
\<close>

definition numpy_prod :: "int list \<Rightarrow> 64 word" where
  "numpy_prod xs = fold (\<lambda>x acc. acc * word_of_int x) xs 1"

text \<open>
  \<^verbatim>\<open>
  def save_bin_edges(self):
      b = self.bin_edges
      T = len(self.trts)
      shape = [len(bin) - 1 for bin in
               (b[0], b[1], b[2][0], b[3][0], b[4])] + [T]
      matrix_size = numpy.prod(shape)  # 6D
      if matrix_size > 1E6:
          raise ValueError(
              'The disaggregation matrix is too large '
              '(%d elements): fix the binning!' % matrix_size)
      self.datastore['disagg-bins/mags'] = b[0]
      self.datastore['disagg-bins/dists'] = b[1]
      for sid in self.sitecol.sids:
          self.datastore['disagg-bins/lons/sid-%d' % sid] = b[2][sid]
          self.datastore['disagg-bins/lats/sid-%d' % sid] = b[3][sid]
      self.datastore['disagg-bins/eps'] = b[4]
  \<close>
  The edges are stored as one-dimensional arrays of floats.
\<close>

definition edges_array :: "real list \<Rightarrow> ndarray" where
  "edges_array xs = Array [length xs] (map Fin xs)"

definition bin_shape :: "bin_edges \<Rightarrow> real list \<Rightarrow> real list \<Rightarrow> string list \<Rightarrow> int list" where
  "bin_shape b lon0 lat0 trts =
     map (\<lambda>bin. int (length bin) - 1) [mag_edges b, dist_edges b, lon0, lat0, eps_edges b] @
     [int (length trts)]"

definition too_large :: "int \<Rightarrow> error" where
  "too_large matrix_size =
     ValueError (''The disaggregation matrix is too large ('' @ show_int matrix_size @
                 '' elements): fix the binning!'')"

definition save_site_edges :: "bin_edges \<Rightarrow> nat \<Rightarrow> datastore \<Rightarrow> error + datastore" where
  "save_site_edges b sid ds =
     (case lon_edges b sid of
        None \<Rightarrow> Inl KeyError
      | Some lons \<Rightarrow>
          (case lat_edges b sid of
             None \<Rightarrow> Inl KeyError
           | Some lats \<Rightarrow>
               Inr (ds(''disagg-bins/lons/sid-'' @ show_nat sid \<mapsto> edges_array lons,
                       ''disagg-bins/lats/sid-'' @ show_nat sid \<mapsto> edges_array lats))))"

definition save_bin_edges ::
  "bin_edges \<Rightarrow> string list \<Rightarrow> nat list \<Rightarrow> datastore \<Rightarrow> error + datastore" where
  "save_bin_edges b trts sids ds =
     (case lon_edges b 0 of
        None \<Rightarrow> Inl KeyError
      | Some lon0 \<Rightarrow>
          (case lat_edges b 0 of
             None \<Rightarrow> Inl KeyError
           | Some lat0 \<Rightarrow>
               (let matrix_size = sint (numpy_prod (bin_shape b lon0 lat0 trts))
                in if matrix_size > 1000000 then Inl (too_large matrix_size)
                   else case efold (save_site_edges b) sids
                               (ds(''disagg-bins/mags'' \<mapsto> edges_array (mag_edges b),
                                   ''disagg-bins/dists'' \<mapsto> edges_array (dist_edges b))) of
                          Inl e \<Rightarrow> Inl e
                        | Inr ds' \<Rightarrow>
                            Inr (ds'(''disagg-bins/eps'' \<mapsto> edges_array (eps_edges b))))))"

section \<open>The choice of the realizations\<close>

text \<open>
  \<^verbatim>\<open>
  if oq.rlz_index is None:
      Z = oq.num_rlzs_disagg
      rlzs = numpy.zeros((self.N, Z), int)
      if self.R > 1:
          for sid in self.sitecol.sids:
              curves = numpy.array(
                  [pc.array for pc in self.pgetter.get_pcurves(sid)])
              mean = getters.build_stat_curve(
                  curves, oq.imtls, stats.mean_curve, self.ws)
              rlzs[sid] = util.closest_to_ref(curves, mean.array)[:Z]
          self.datastore['best_rlzs'] = rlzs
  else:
      Z = len(oq.rlz_index)
      rlzs = numpy.zeros((self.N, Z), int)
      for z in range(Z):
          rlzs[:, z] = oq.rlz_index[z]
  assert Z <= self.R, (Z, self.R)
  self.Z = Z
  self.rlzs = rlzs
  \<close>
  The realizations of a site ordered by their distance from the mean curve,
  \<^verbatim>\<open>util.closest_to_ref(curves, mean.array)\<close>, are the parameter \<open>closest\<close>. numpy refuses
  a negative dimension (\<^verbatim>\<open>ValueError\<close>); a row takes a list of its own length, or a
  list of length one, which it repeats, and refuses any other (\<^verbatim>\<open>ValueError\<close>).
\<close>

definition assign_row :: "nat \<Rightarrow> nat \<Rightarrow> int list \<Rightarrow> int list list \<Rightarrow> error + int list list" where
  "assign_row Z sid xs m =
     (if length m \<le> sid then Inl IndexError
      else if length xs = Z then Inr (m[sid := xs])
      else if length xs = 1 then Inr (m[sid := replicate Z (hd xs)])
      else Inl (ValueError ''could not broadcast input array''))"

definition assign_column :: "int list \<Rightarrow> nat \<Rightarrow> int list list \<Rightarrow> int list list" where
  "assign_column ix z m = map (\<lambda>row. row[z := ix ! z]) m"

definition build_rlzs ::
  "nat \<Rightarrow> nat \<Rightarrow> nat list \<Rightarrow> int list option \<Rightarrow> int \<Rightarrow> (nat \<Rightarrow> int list) \<Rightarrow>
   error + nat \<times> int list list" where
  "build_rlzs N R sids rlz_index num_rlzs_disagg closest =
     (case rlz_index of
        None \<Rightarrow>
          if num_rlzs_disagg < 0 then Inl (ValueError ''negative dimensions are not allowed'')
          else let Z = nat num_rlzs_disagg; zeros = replicate N (replicate Z 0)
               in if R > 1
                  then (case efold (\<lambda>sid. assign_row Z sid (take Z (closest sid))) sids zeros of
                          Inl e \<Rightarrow> Inl e
                        | Inr m \<Rightarrow> Inr (Z, m))
                  else Inr (Z, zeros)
      | Some ix \<Rightarrow>
          Inr (length ix,
               fold (assign_column ix) [0..<length ix] (replicate N (replicate (length ix) 0))))"

definition select_rlzs ::
  "nat \<Rightarrow> nat \<Rightarrow> nat list \<Rightarrow> int list option \<Rightarrow> int \<Rightarrow> (nat \<Rightarrow> int list) \<Rightarrow>
   error + nat \<times> int list list" where
  "select_rlzs N R sids rlz_index num_rlzs_disagg closest =
     (case build_rlzs N R sids rlz_index num_rlzs_disagg closest of
        Inl e \<Rightarrow> Inl e
      | Inr zm \<Rightarrow> if fst zm \<le> R then Inr zm else Inl AssertionError)"

section \<open>A binning with many bins\<close>

text \<open>
  Bin edges with 65536 bins of magnitude, distance, longitude and latitude, one bin of
  epsilon and one tectonic region type: arrays of 65537 edges each, strictly
  increasing.
\<close>

definition wide_edges :: "real list" where
  "wide_edges = map real [0..<65537]"

definition wide :: bin_edges where
  "wide = \<lparr>mag_edges = wide_edges, dist_edges = wide_edges,
           lon_edges = [0 \<mapsto> wide_edges], lat_edges = [0 \<mapsto> wide_edges],
           eps_edges = [0, 1]\<rparr>"

section \<open>Vocabulary of the statements\<close>

text \<open>
  The rule of independent events as the code computes it on two floats,
  \<^verbatim>\<open>1. - (1. - before) * (1. - new)\<close> with its three subtractions and its product
  rounded; the cells a slot holds before a merge, zero everywhere when the slot is
  absent; the partial matrices a merge is stated for (a well-formed array, of the
  shape of the matrix already in the slot if there is one); and the matrix the rule
  gives cell by cell.
\<close>

definition independent :: "double \<Rightarrow> double \<Rightarrow> double" where
  "independent before new = dsub (Fin 1) (dmul (dsub (Fin 1) before) (dsub (Fin 1) new))"

definition prior_cells :: "ndarray option \<Rightarrow> nat \<Rightarrow> double list" where
  "prior_cells before n = (case before of None \<Rightarrow> replicate n (Fin 0) | Some b \<Rightarrow> cells b)"

definition mergeable :: "ndarray option \<Rightarrow> ndarray \<Rightarrow> bool" where
  "mergeable before probs =
     (wf probs \<and> shape probs \<noteq> [] \<and>
      (case before of None \<Rightarrow> True | Some b \<Rightarrow> wf b \<and> shape b = shape probs))"

definition merged :: "ndarray option \<Rightarrow> ndarray \<Rightarrow> ndarray" where
  "merged before probs =
     Array (shape probs)
       (map2 independent (prior_cells before (length (cells probs))) (cells probs))"

text \<open>
  The rule as the specification writes it, \<^verbatim>\<open>1 - (1 - a) * (1 - b)\<close>, over the real
  numbers.
\<close>

definition combine :: "real \<Rightarrow> real \<Rightarrow> real" where
  "combine a b = 1 - (1 - a) * (1 - b)"

text \<open>
  A probability is a finite float between 0 and 1. Two floats are \<open>near\<close> within
  \<open>eps\<close> when both are finite and differ by \<open>eps\<close> at most.
\<close>

definition probability :: "double \<Rightarrow> bool" where
  "probability a = (case a of Fin x \<Rightarrow> 0 \<le> x \<and> x \<le> 1 | PInf \<Rightarrow> False | NInf \<Rightarrow> False | NaN \<Rightarrow> False)"

definition near :: "real \<Rightarrow> double \<Rightarrow> double \<Rightarrow> bool" where
  "near eps a b =
     (case a of
        Fin x \<Rightarrow> (case b of Fin y \<Rightarrow> \<bar>x - y\<bar> \<le> eps | PInf \<Rightarrow> False | NInf \<Rightarrow> False | NaN \<Rightarrow> False)
      | PInf \<Rightarrow> False | NInf \<Rightarrow> False | NaN \<Rightarrow> False)"

text \<open>
  What \<^verbatim>\<open>agg_probs(*matrix)\<close> computes in cell \<open>k\<close> of the result, for a matrix of \<open>T\<close>
  slices of \<open>K\<close> cells each with the cells \<open>cs\<close>: the complements of the cells \<open>k\<close> of
  the slices multiplied from the first slice to the last, and the complement of the
  product.
\<close>

definition collapsed_cell :: "nat \<Rightarrow> nat \<Rightarrow> double list \<Rightarrow> nat \<Rightarrow> double" where
  "collapsed_cell T K cs k =
     dsub (Fin 1)
       (fold (\<lambda>t acc. dmul acc (dsub (Fin 1) (cs ! (t * K + k)))) [1..<T]
             (dsub (Fin 1) (cs ! k)))"

text \<open>An \<open>N\<close> by \<open>Z\<close> matrix of integers: \<open>N\<close> rows of length \<open>Z\<close>.\<close>

definition is_matrix :: "nat \<Rightarrow> nat \<Rightarrow> int list list \<Rightarrow> bool" where
  "is_matrix N Z m = (length m = N \<and> list_all (\<lambda>row. length row = Z) m)"







section \<open>A small calculation\<close>

text \<open>
  One site, one intensity measure type, one realization and one probability of
  exceedance, with a table of three extraction functions that keep every bin of the
  matrix they are given, weights that put everything on the first realization, and
  collaborators that give one rupture within the maximum distance and a matrix with
  one cell.
\<close>

definition example_edges :: bin_edges where
  "example_edges = \<lparr>mag_edges = [5, 6], dist_edges = [0, 10],
      lon_edges = [0 \<mapsto> [0, 1]], lat_edges = [0 \<mapsto> [0, 1]], eps_edges = [- 3, 3]\<rparr>"

definition example_calc :: calc where
  "example_calc = \<lparr>disagg_outputs = [''Mag'', ''TRT''],
      pmf_map = [(''Mag'', \<lambda>m. m), (''Dist'', \<lambda>m. m), (''TRT'', \<lambda>m. m)],
      poe_id = [Some (Fin (1 / 2)) \<mapsto> 0],
      site_lons = [0], site_lats = [0],
      calc_edges = example_edges,
      imts = [''PGA''], rlzs = [[0]], ws = [\<lambda>imt. Fin 1],
      poes_disagg = [Some (Fin (1 / 2))], num_Z = 1,
      np_sum = (\<lambda>w. Fin 1), np_divide = (\<lambda>x y. x),
      np_average = (\<lambda>mat7 w. take_rlz mat7 0), set_attrs = Inr\<rparr>"


section \<open>Rounding\<close>

text \<open>
  The rounding errs by half a unit in the last place at most, which on the unit
  interval is \<^verbatim>\<open>2**-53\<close>, and keeps the unit interval; a number with a significand
  of at most 53 bits and an exponent of the format is rounded to itself.
\<close>

lemma rhe_error: "\<bar>of_int (round_half_even x) - x\<bar> \<le> 1 / 2"
proof -
  have "of_int \<lfloor>x\<rfloor> \<le> x" "x < of_int \<lfloor>x\<rfloor> + 1" by linarith+
  then show ?thesis unfolding round_half_even_def Let_def by (auto simp: abs_le_iff)
qed

lemma rhe_int: "round_half_even (of_int n) = n"
  by (simp add: round_half_even_def)

lemma rhe_le: "x \<le> of_int n \<Longrightarrow> round_half_even x \<le> n"
proof -
  assume "x \<le> of_int n"
  moreover have "of_int (round_half_even x) \<le> x + 1 / 2" using rhe_error[of x] by linarith
  ultimately have "(of_int (round_half_even x) :: real) < of_int n + 1" by linarith
  then have "(of_int (round_half_even x) :: real) < of_int (n + 1)" by simp
  then have "round_half_even x < n + 1" by (simp only: of_int_less_iff)
  then show ?thesis by simp
qed

lemma rhe_ge: "of_int n \<le> x \<Longrightarrow> n \<le> round_half_even x"
proof -
  assume "of_int n \<le> x"
  moreover have "x - 1 / 2 \<le> of_int (round_half_even x)" using rhe_error[of x] by linarith
  ultimately have "(of_int (n - 1) :: real) < of_int (round_half_even x)" by simp
  then have "n - 1 < round_half_even x" by (simp only: of_int_less_iff)
  then show ?thesis by simp
qed

lemma binade_eq:
  assumes "2 powi k \<le> \<bar>x\<bar>" "\<bar>x\<bar> < 2 powi (k + 1)" "- 1022 \<le> k"
  shows "binade x = k"
proof -
  have pos: "0 < \<bar>x\<bar>" using assms(1) by (smt (verit) zero_less_power_int)
  have eq: "\<And>j. (2::real) powr (of_int j) = 2 powi j" by (simp add: powr_real_of_int')
  have a: "2 powr (of_int k) \<le> \<bar>x\<bar>" using assms(1) by (simp only: eq)
  have "\<bar>x\<bar> < 2 powr (of_int (k + 1))" using assms(2) by (simp only: eq)
  then have b: "\<bar>x\<bar> < 2 powr (of_int k + 1)" by simp
  have "\<lfloor>log 2 \<bar>x\<bar>\<rfloor> = k" using pos a b by (simp add: floor_log_eq_powr_iff)
  then show ?thesis using assms(3) by (simp add: binade_def)
qed



lemma round64_error_ulp: "\<bar>round64 x - x\<bar> \<le> ulp x / 2"
proof (cases "x = 0")
  case True
  then show ?thesis by (simp add: round64_def ulp_def)
next
  case False
  have u: "0 < ulp x" by (simp add: ulp_def)
  have "round64 x - x = ulp x * (of_int (round_half_even (x / ulp x)) - x / ulp x)"
    using False u by (simp add: round64_def algebra_simps)
  then have "\<bar>round64 x - x\<bar> = ulp x * \<bar>of_int (round_half_even (x / ulp x)) - x / ulp x\<bar>"
    using u by (simp add: abs_mult)
  also have "\<dots> \<le> ulp x * (1 / 2)"
    using u rhe_error[of "x / ulp x"] by (intro mult_left_mono) simp_all
  finally show ?thesis by simp
qed

lemma binade_unit: "0 < x \<Longrightarrow> x \<le> 1 \<Longrightarrow> binade x \<le> 0"
proof -
  assume "0 < x" "x \<le> 1"
  then have "log 2 \<bar>x\<bar> \<le> 0" by simp
  then have "\<lfloor>log 2 \<bar>x\<bar>\<rfloor> \<le> 0" by (simp add: floor_le_iff)
  then show ?thesis by (simp add: binade_def)
qed

lemma ulp_unit: "0 < x \<Longrightarrow> x \<le> 1 \<Longrightarrow> ulp x \<le> 2 powi (- 52)"
proof -
  assume "0 < x" "x \<le> 1"
  then have "binade x - 52 \<le> - 52" using binade_unit by simp
  then show ?thesis unfolding ulp_def by (intro power_int_increasing) simp_all
qed

lemma ulp_inverse_int: "0 < x \<Longrightarrow> x \<le> 1 \<Longrightarrow> 1 / ulp x = of_int (2 ^ nat (52 - binade x))"
proof -
  assume "0 < x" "x \<le> 1"
  then have b: "binade x \<le> 0" by (rule binade_unit)
  have "1 / ulp x = 2 powi (- (binade x - 52))"
    unfolding ulp_def by (simp only: power_int_minus inverse_eq_divide)
  also have "- (binade x - 52) = int (nat (52 - binade x))" using b by simp
  also have "(2::real) powi int (nat (52 - binade x)) = 2 ^ nat (52 - binade x)"
    by (rule power_int_of_nat)
  finally show ?thesis by simp
qed

lemma round64_unit:
  assumes "0 \<le> x" "x \<le> 1"
  shows "0 \<le> round64 x \<and> round64 x \<le> 1 \<and> \<bar>round64 x - x\<bar> \<le> 1 / 2 ^ 53"
proof (cases "x = 0")
  case True
  then show ?thesis by (simp add: round64_def)
next
  case False
  then have pos: "0 < x" using assms(1) by simp
  have u: "0 < ulp x" by (simp add: ulp_def)
  have r: "round64 x = ulp x * of_int (round_half_even (x / ulp x))"
    using False by (simp add: round64_def)
  have "of_int 0 \<le> x / ulp x" using pos u by simp
  then have "0 \<le> round_half_even (x / ulp x)" by (rule rhe_ge)
  then have lo: "0 \<le> round64 x" using r u by simp
  let ?N = "2 ^ nat (52 - binade x) :: int"
  have inv: "1 / ulp x = of_int ?N" using ulp_inverse_int[OF pos assms(2)] .
  have "x / ulp x \<le> 1 / ulp x" using assms(2) u by (simp add: divide_right_mono)
  then have "x / ulp x \<le> of_int ?N" using inv by simp
  then have "round_half_even (x / ulp x) \<le> ?N" by (rule rhe_le)
  then have "(of_int (round_half_even (x / ulp x)) :: real) \<le> of_int ?N" by (simp only: of_int_le_iff)
  then have "ulp x * of_int (round_half_even (x / ulp x)) \<le> ulp x * of_int ?N"
    using u by (intro mult_left_mono) simp_all
  also have "ulp x * of_int ?N = 1" using inv u by (simp add: field_simps)
  finally have hi: "round64 x \<le> 1" using r by simp
  have "ulp x \<le> 2 powi (- 52)" using ulp_unit[OF pos assms(2)] .
  also have "(2::real) powi (- 52) = 1 / 2 ^ 52" by (simp add: power_int_minus field_simps)
  finally have "ulp x / 2 \<le> 1 / 2 ^ 53" by simp
  then have er: "\<bar>round64 x - x\<bar> \<le> 1 / 2 ^ 53" using round64_error_ulp[of x] by linarith
  show ?thesis using lo hi er by simp
qed

lemma fl_unit:
  assumes "0 \<le> x" "x \<le> 1"
  shows "\<exists>r. fl x = Fin r \<and> 0 \<le> r \<and> r \<le> 1 \<and> \<bar>r - x\<bar> \<le> 1 / 2 ^ 53"
proof -
  have r: "0 \<le> round64 x" "round64 x \<le> 1" "\<bar>round64 x - x\<bar> \<le> 1 / 2 ^ 53"
    using round64_unit[OF assms] by simp_all
  have big: "(1::real) < 2 ^ 1024" by (rule one_less_power) simp_all
  have "\<not> (2 ^ 1024 \<le> round64 x)" using r(2) big by linarith
  moreover have "\<not> (round64 x \<le> - (2 ^ 1024))" using r(1) big by linarith
  ultimately have "fl x = Fin (round64 x)" by (simp add: fl_def Let_def)
  then show ?thesis using r by blast
qed



lemma round64_in_binade:
  assumes "2 powi k \<le> \<bar>x\<bar>" "\<bar>x\<bar> < 2 powi (k + 1)" "- 1022 \<le> k"
  shows "round64 x = 2 powi (k - 52) * of_int (round_half_even (x / 2 powi (k - 52)))"
proof -
  have "binade x = k" using assms by (rule binade_eq)
  moreover have "x \<noteq> 0" using assms(1) by (smt (verit) zero_less_power_int abs_zero)
  ultimately show ?thesis by (simp add: round64_def ulp_def)
qed

lemma fl_finite: "\<bar>round64 x\<bar> < 2 ^ 1024 \<Longrightarrow> fl x = Fin (round64 x)"
  by (auto simp: fl_def Let_def)

lemma fl_zero: "fl 0 = Fin 0"
  by (simp add: fl_def round64_def)

lemma fl_one: "fl 1 = Fin 1"
proof -
  have "round64 1 = 2 powi (0 - 52) * of_int (round_half_even (1 / 2 powi (0 - 52)))"
    by (rule round64_in_binade) simp_all
  also have "\<dots> = 1" by (simp add: power_int_minus round_half_even_def)
  finally have r: "round64 1 = 1" .
  show ?thesis by (rule fl_finite[of 1, unfolded r]) simp
qed

lemma fl_half: "fl (1 / 2) = Fin (1 / 2)"
proof -
  have "round64 (1 / 2) = 2 powi (- 1 - 52) * of_int (round_half_even ((1 / 2) / 2 powi (- 1 - 52)))"
    by (rule round64_in_binade) (simp_all add: power_int_minus)
  also have "\<dots> = 1 / 2" by (simp add: power_int_minus round_half_even_def)
  finally have r: "round64 (1 / 2) = 1 / 2" .
  show ?thesis by (rule fl_finite[of "1 / 2", unfolded r]) simp
qed

lemma fl_near_one: "fl (1 - 1 / 2 ^ 60) = Fin 1"
proof -
  have "round64 (1 - 1 / 2 ^ 60) =
      2 powi (- 1 - 52) * of_int (round_half_even ((1 - 1 / 2 ^ 60) / 2 powi (- 1 - 52)))"
    by (rule round64_in_binade) (simp_all add: power_int_minus)
  also have "\<dots> = 1" by (simp add: power_int_minus round_half_even_def)
  finally have r: "round64 (1 - 1 / 2 ^ 60) = 1" .
  show ?thesis by (rule fl_finite[of "1 - 1 / 2 ^ 60", unfolded r]) simp
qed


lemma floor_log_less:
  assumes "0 < \<bar>x\<bar>" "\<bar>x\<bar> < 2 powi k"
  shows "\<lfloor>log 2 \<bar>x\<bar>\<rfloor> < k"
proof -
  have eq: "\<And>j. (2::real) powr (of_int j) = 2 powi j" by (simp add: powr_real_of_int')
  have "\<bar>x\<bar> < 2 powr (of_int k)" using assms(2) by (simp only: eq)
  then have "log 2 \<bar>x\<bar> < of_int k" using assms(1) by (simp add: log_less_iff)
  then show ?thesis by linarith
qed

lemma round64_exact:
  assumes "\<bar>m\<bar> < 2 ^ 53" "n \<le> 1074"
  shows "round64 (of_int m / 2 ^ n) = of_int m / 2 ^ n"
proof (cases "m = 0")
  case True
  then show ?thesis by (simp add: round64_def)
next
  case False
  let ?x = "of_int m / 2 ^ n :: real"
  have x0: "?x \<noteq> 0" using False by simp
  have ax: "\<bar>?x\<bar> = of_int \<bar>m\<bar> / 2 ^ n" by (simp add: abs_divide)
  have "(of_int \<bar>m\<bar> :: real) < of_int (2 ^ 53)" using assms(1) by (simp only: of_int_less_iff)
  then have "of_int \<bar>m\<bar> / 2 ^ n < (2 ^ 53 :: real) / 2 ^ n" by (simp add: divide_strict_right_mono)
  also have "(2 ^ 53 :: real) / 2 ^ n = 2 powi (53 - int n)"
    by (simp add: power_int_diff)
  finally have up: "\<bar>?x\<bar> < 2 powi (53 - int n)" using ax by simp
  have "\<lfloor>log 2 \<bar>?x\<bar>\<rfloor> < 53 - int n" using x0 up by (intro floor_log_less) simp_all
  then have b: "binade ?x - 52 \<le> - int n" using assms(2) by (simp add: binade_def)
  define j where "j = nat (- int n - (binade ?x - 52))"
  have je: "int j = - int n - (binade ?x - 52)" using b by (simp add: j_def)
  have "?x / ulp ?x = of_int m * (2 powi (- int n) / 2 powi (binade ?x - 52))"
    by (simp add: ulp_def power_int_minus field_simps)
  also have "2 powi (- int n) / 2 powi (binade ?x - 52) = (2::real) powi (int j)"
    by (simp add: je power_int_diff)
  also have "(2::real) powi (int j) = of_int (2 ^ j)" by simp
  finally have q: "?x / ulp ?x = of_int (m * 2 ^ j)" by simp
  have "round_half_even (?x / ulp ?x) = m * 2 ^ j" by (simp only: q rhe_int)
  then have "round64 ?x = ulp ?x * of_int (m * 2 ^ j)" using x0 by (simp add: round64_def)
  also have "\<dots> = ulp ?x * (?x / ulp ?x)" by (simp only: q)
  also have "\<dots> = ?x" by (simp add: ulp_def)
  finally show ?thesis .
qed

lemma fl_exact:
  assumes "\<bar>m\<bar> < 2 ^ 53" "n \<le> 1074"
  shows "fl (of_int m / 2 ^ n) = Fin (of_int m / 2 ^ n)"
proof -
  let ?x = "of_int m / 2 ^ n :: real"
  have r: "round64 ?x = ?x" using assms by (rule round64_exact)
  have "(of_int \<bar>m\<bar> :: real) < of_int (2 ^ 53)" using assms(1) by (simp only: of_int_less_iff)
  then have m: "(of_int \<bar>m\<bar> :: real) < 2 ^ 53" by simp
  have "\<bar>?x\<bar> = of_int \<bar>m\<bar> / 2 ^ n" by (simp add: abs_divide)
  also have "\<dots> \<le> of_int \<bar>m\<bar>"
  proof -
    have "(1::real) \<le> 2 ^ n" by simp
    then have "(of_int \<bar>m\<bar> :: real) * 1 \<le> of_int \<bar>m\<bar> * 2 ^ n" by (intro mult_left_mono) simp_all
    then show ?thesis by (simp add: divide_le_eq)
  qed
  finally have "\<bar>?x\<bar> < 2 ^ 53" using m by linarith
  moreover have "(2::real) ^ 53 \<le> 2 ^ 1024" by (rule power_increasing) simp_all
  ultimately have "\<bar>round64 ?x\<bar> < 2 ^ 1024" using r by linarith
  then have "fl ?x = Fin (round64 ?x)" by (rule fl_finite)
  then show ?thesis by (simp only: r)
qed

lemma fl_quarter: "fl (1 / 4) = Fin (1 / 4)"
  using fl_exact[of 1 2] by simp

lemma fl_three_quarters: "fl (3 / 4) = Fin (3 / 4)"
  using fl_exact[of 3 2] by simp

lemma fl_eighth: "fl (1 / 8) = Fin (1 / 8)"
  using fl_exact[of 1 3] by simp

lemma fl_seven_eighths: "fl (7 / 8) = Fin (7 / 8)"
  using fl_exact[of 7 3] by simp

lemma fl_tiny: "fl (1 / 2 ^ 60) = Fin (1 / 2 ^ 60)"
  using fl_exact[of 1 60] by simp

section \<open>Site limits of the initialisation\<close>

text \<open>
  Claim C6. When the number of sites \<open>N\<close> is at least 32768, or exceeds
  \<^verbatim>\<open>max_sites_disagg\<close>, \<open>init\<close> raises \<^verbatim>\<open>ValueError\<close> whatever the initialisation of
  the base calculator would do, so nothing of it runs; otherwise \<open>init\<close> is exactly the
  base initialisation.
\<close>

theorem init_site_limits:
  "(N \<ge> 32768 \<or> int N > few \<longrightarrow>
      (\<exists>msg. \<forall>super_init. init super_init N few self = Inl (ValueError msg)))
   \<and> (\<not> (N \<ge> 32768 \<or> int N > few) \<longrightarrow> init super_init N few self = super_init self)"
proof (intro conjI impI)
  assume h: "N \<ge> 32768 \<or> int N > few"
  show "\<exists>msg. \<forall>super_init. init super_init N few self = Inl (ValueError msg)"
  proof (cases "N \<ge> 32768")
    case True
    then have "\<forall>super_init. init super_init N few self =
        Inl (ValueError ''You can disaggregate at max 32,768 sites'')"
      unfolding init_def by (simp only: if_True) simp
    then show ?thesis ..
  next
    case False
    with h have "int N > few" by blast
    with False have "\<forall>super_init. init super_init N few self =
        Inl (ValueError (''The number of sites is to disaggregate is '' @ show_nat N @
                         '', but you have max_sites_disagg='' @ show_int few))"
      unfolding init_def by (simp only: if_True if_False) simp
    then show ?thesis ..
  qed
next
  assume "\<not> (N \<ge> 32768 \<or> int N > few)"
  then have a: "\<not> N \<ge> 32768" and b: "\<not> int N > few" by blast+
  show "init super_init N few self = super_init self"
    unfolding init_def using a b by (simp only: if_False)
qed

theorem init_site_limits_witness:
  "(\<exists>msg. \<forall>super_init. init super_init 32768 100000 () = Inl (ValueError msg))
   \<and> (\<exists>msg. \<forall>super_init. init super_init 11 10 () = Inl (ValueError msg))
   \<and> init Inr 10 10 () = Inr ()"
proof -
  have "(32768::nat) \<ge> 32768 \<or> int 32768 > 100000" by simp
  moreover have "(11::nat) \<ge> 32768 \<or> int 11 > 10" by simp
  moreover have "\<not> ((10::nat) \<ge> 32768 \<or> int 10 > 10)" by simp
  ultimately show ?thesis
    using init_site_limits [where N = 32768 and few = 100000 and self = "()"]
        init_site_limits [where N = 11 and few = 10 and self = "()"]
        init_site_limits [where N = 10 and few = 10 and self = "()" and super_init = Inr]
    by blast
qed
section \<open>The magnitude bin of a rupture\<close>

text \<open>
  Claim C3. A magnitude equal to the first edge is inside the closed range of the
  edges, yet \<open>searchsorted\<close> finds no edge below it and the bin index is \<open>-1\<close>, not
  an index of a bin: the rupture is filed under \<open>magi = -1\<close>, which an array of two
  magnitude bins reads as its last bin.
\<close>

theorem mag_bin_first_edge:
  "mag_bin [5, 11 / 2, 6] 5 = - 1
   \<and> get_indices_by_gidx_mag [0] [5] [5, 11 / 2, 6] (0, - 1) = Some [0]
   \<and> axis_index 2 (mag_bin [5, 11 / 2, 6] 5) = Inr 1"
proof -
  have a: "mag_bin [5, 11 / 2, 6] 5 = - 1" by (simp add: mag_bin_def searchsorted_def)
  have b: "get_indices_by_gidx_mag [0] [5] [5, 11 / 2, 6] (0, - 1) = Some [0]"
    by (simp add: get_indices_by_gidx_mag_def groups_def extend_group_def group_rows_def a)
  have c: "axis_index 2 (- 1) = Inr 1" by (simp add: axis_index_def)
  show ?thesis using a b c by simp
qed

lemma takeWhile_lt_sorted:
  "sorted_wrt (<) a \<Longrightarrow> a \<noteq> [] \<Longrightarrow> (v::real) \<le> last a \<Longrightarrow> length (takeWhile (\<lambda>x. x < v) a) < length a"
proof -
  assume "sorted_wrt (<) a" "a \<noteq> []" "v \<le> last a"
  then have "\<not> (last a < v)" by simp
  moreover have "last a \<in> set a" using \<open>a \<noteq> []\<close> by simp
  ultimately have "\<exists>x\<in>set a. \<not> x < v" by blast
  then have "takeWhile (\<lambda>x. x < v) a \<noteq> a" by (simp add: takeWhile_eq_all_conv)
  moreover have "length (takeWhile (\<lambda>x. x < v) a) \<le> length a" by (rule length_takeWhile_le)
  moreover have "length (takeWhile (\<lambda>x. x < v) a) = length a \<Longrightarrow> takeWhile (\<lambda>x. x < v) a = a"
  proof -
    assume l: "length (takeWhile (\<lambda>x. x < v) a) = length a"
    have "takeWhile (\<lambda>x. x < v) a = take (length (takeWhile (\<lambda>x. x < v) a)) a"
      by (rule takeWhile_eq_take)
    then show ?thesis using l by simp
  qed
  ultimately show ?thesis by (cases "length (takeWhile (\<lambda>x. x < v) a) = length a") auto
qed

text \<open>
  Above the first edge the claim holds: for strictly increasing edges and a magnitude
  greater than the first edge and at most the last, the bin index is one of
  \<open>0 .. n_bins - 1\<close>, and the last edge itself falls in the last bin.
\<close>

theorem mag_bin_in_range:
  assumes "sorted_wrt (<) es" "2 \<le> length es" "hd es < mag" "mag \<le> last es"
  shows "0 \<le> mag_bin es mag \<and> mag_bin es mag \<le> int (length es) - 2
         \<and> mag_bin es (last es) = int (length es) - 2"
proof -
  have ne: "es \<noteq> []" using assms(2) by auto
  have "takeWhile (\<lambda>x. x < mag) es \<noteq> []"
    using ne assms(3) by (cases es) auto
  then have lo: "1 \<le> searchsorted es mag"
    by (simp add: searchsorted_def Suc_le_eq)
  have hi: "searchsorted es mag < length es"
    unfolding searchsorted_def using assms(1) ne assms(4) by (rule takeWhile_lt_sorted)
  obtain ys y where e: "es = ys @ [y]" using ne by (metis rev_exhaust)
  have "\<forall>x\<in>set ys. x < y" using assms(1) e by (simp add: sorted_wrt_append)
  then have "takeWhile (\<lambda>x. x < y) (ys @ [y]) = ys" by (simp add: takeWhile_append2)
  then have la: "mag_bin es (last es) = int (length es) - 2"
    using e by (simp add: mag_bin_def searchsorted_def)
  show ?thesis using lo hi la by (simp add: mag_bin_def)
qed

theorem mag_bin_in_range_witness:
  "0 \<le> mag_bin [5, 11 / 2, 6] (27 / 5) \<and> mag_bin [5, 11 / 2, 6] (27 / 5) \<le> 1
   \<and> mag_bin [5, 11 / 2, 6] 6 = 1"
proof -
  have "sorted_wrt (<) [5, 11 / 2, 6 :: real]" "2 \<le> length [5, 11 / 2, 6 :: real]"
       "hd [5, 11 / 2, 6 :: real] < 27 / 5" "27 / 5 \<le> last [5, 11 / 2, 6 :: real]"
    by simp_all
  from mag_bin_in_range[OF this] show ?thesis by simp
qed

section \<open>The limit on the size of the matrix\<close>

lemma numpy_prod_fold:
  "fold (\<lambda>x acc. acc * word_of_int x) xs (word_of_int a :: 64 word) = word_of_int (a * prod_list xs)"
proof (induction xs arbitrary: a)
  case Nil
  then show ?case by simp
next
  case (Cons x xs)
  have "fold (\<lambda>x acc. acc * word_of_int x) (x # xs) (word_of_int a :: 64 word)
        = fold (\<lambda>x acc. acc * word_of_int x) xs (word_of_int (a * x))"
    by (simp only: fold_simps wi_hom_mult)
  also have "\<dots> = word_of_int ((a * x) * prod_list xs)" by (rule Cons.IH)
  also have "(a * x) * prod_list xs = a * prod_list (x # xs)" by (simp only: prod_list.Cons mult.assoc)
  finally show ?case .
qed

lemma numpy_prod_eq: "numpy_prod xs = word_of_int (prod_list xs)"
proof -
  have "fold (\<lambda>x acc. acc * word_of_int x) xs (word_of_int 1 :: 64 word) = word_of_int (1 * prod_list xs)"
    by (rule numpy_prod_fold)
  then show ?thesis unfolding numpy_prod_def by (simp only: word_of_int_1 mult_1)
qed

lemma numpy_prod_exact:
  "- (2 ^ 63) \<le> prod_list xs \<Longrightarrow> prod_list xs < 2 ^ 63 \<Longrightarrow> sint (numpy_prod xs) = prod_list xs"
  by (simp add: numpy_prod_eq sint_sbintrunc' signed_take_bit_int_eq_self)

lemma wide_length: "length wide_edges = 65537"
  unfolding wide_edges_def by (simp only: length_map length_upt minus_nat.diff_0)

lemma wide_shape: "bin_shape wide wide_edges wide_edges [''Active Shallow Crust''] = [65536, 65536, 65536, 65536, 1, 1]"
  by (simp add: bin_shape_def wide_def wide_length)

lemma wide_size: "sint (numpy_prod [65536, 65536, 65536, 65536, 1, 1]) = 0"
  by (simp add: numpy_prod_def)

lemma show_nat_small: "n < 10 \<Longrightarrow> show_nat n = [digit_char n]"
  by (simp add: show_nat.simps)

lemma show_nat_step: "10 \<le> n \<Longrightarrow> show_nat n = show_nat (n div 10) @ [digit_char (n mod 10)]"
  by (subst show_nat.simps) simp

lemma wide_site: "save_site_edges wide 0 ds =
    Inr (ds(''disagg-bins/lons/sid-0'' \<mapsto> edges_array wide_edges,
            ''disagg-bins/lats/sid-0'' \<mapsto> edges_array wide_edges))"
  by (simp add: save_site_edges_def wide_def show_nat_small digit_char_def)

text \<open>
  Claim C5. With 65536 bins on four axes the product of the six bin counts is
  \<open>2 ^ 64\<close>, far above 1,000,000, but \<^verbatim>\<open>numpy.prod\<close> wraps around to 0: no error is
  raised and the bin edges are stored.
\<close>

theorem save_bin_edges_wraps:
  "prod_list (bin_shape wide wide_edges wide_edges [''Active Shallow Crust'']) = 18446744073709551616
   \<and> sint (numpy_prod (bin_shape wide wide_edges wide_edges [''Active Shallow Crust''])) = 0
   \<and> save_bin_edges wide [''Active Shallow Crust''] [0] Map.empty =
       Inr [''disagg-bins/mags'' \<mapsto> edges_array wide_edges,
            ''disagg-bins/dists'' \<mapsto> edges_array wide_edges,
            ''disagg-bins/lons/sid-0'' \<mapsto> edges_array wide_edges,
            ''disagg-bins/lats/sid-0'' \<mapsto> edges_array wide_edges,
            ''disagg-bins/eps'' \<mapsto> edges_array [0, 1]]"
proof -
  have l: "lon_edges wide 0 = Some wide_edges" "lat_edges wide 0 = Some wide_edges"
    by (simp_all add: wide_def)
  have f: "mag_edges wide = wide_edges" "dist_edges wide = wide_edges" "eps_edges wide = [0, 1]"
    by (simp_all add: wide_def)
  have z: "sint (numpy_prod (bin_shape wide wide_edges wide_edges [''Active Shallow Crust''])) = 0"
    by (simp only: wide_shape wide_size)
  have p: "prod_list (bin_shape wide wide_edges wide_edges [''Active Shallow Crust'']) = 18446744073709551616"
    by (simp only: wide_shape) simp
  have "save_bin_edges wide [''Active Shallow Crust''] [0] Map.empty =
       Inr [''disagg-bins/mags'' \<mapsto> edges_array wide_edges,
            ''disagg-bins/dists'' \<mapsto> edges_array wide_edges,
            ''disagg-bins/lons/sid-0'' \<mapsto> edges_array wide_edges,
            ''disagg-bins/lats/sid-0'' \<mapsto> edges_array wide_edges,
            ''disagg-bins/eps'' \<mapsto> edges_array [0, 1]]"
    unfolding save_bin_edges_def by (simp add: l f z wide_site Let_def)
  then show ?thesis using p z by blast
qed

section \<open>The selected realizations\<close>

lemma is_matrix_zeros: "is_matrix N Z (replicate N (replicate Z 0))"
  by (simp add: is_matrix_def list_all_iff)

lemma assign_row_matrix:
  assumes "is_matrix N Z m" "assign_row Z sid xs m = Inr m'"
  shows "is_matrix N Z m'"
proof -
  have "m' = m[sid := xs] \<and> length xs = Z \<or> m' = m[sid := replicate Z (hd xs)]"
    using assms(2) by (auto simp: assign_row_def split: if_splits)
  then show ?thesis
    using assms(1) by (auto simp: is_matrix_def list_all_iff dest!: set_update_subset_insert[THEN subsetD])
qed

lemma assign_rows_matrix:
  "is_matrix N Z m \<Longrightarrow> efold (\<lambda>sid. assign_row Z sid (f sid)) sids m = Inr m' \<Longrightarrow> is_matrix N Z m'"
proof (induction sids arbitrary: m)
  case Nil
  then show ?case by simp
next
  case (Cons sid sids)
  then obtain m1 where s: "assign_row Z sid (f sid) m = Inr m1"
    and r: "efold (\<lambda>sid. assign_row Z sid (f sid)) sids m1 = Inr m'"
    by (auto split: sum.splits)
  have "is_matrix N Z m1" using assign_row_matrix[OF Cons.prems(1) s] .
  then show ?case using Cons.IH r by blast
qed

lemma fill_row: "k \<le> length ix \<Longrightarrow> length row = length ix \<Longrightarrow>
    fold (\<lambda>z r. r[z := ix ! z]) [0..<k] row = take k ix @ drop k row"
proof (induction k)
  case 0
  then show ?case by simp
next
  case (Suc k)
  then have IH: "fold (\<lambda>z r. r[z := ix ! z]) [0..<k] row = take k ix @ drop k row" by simp
  have k: "k < length ix" using Suc.prems by simp
  have "(take k ix @ drop k row)[k := ix ! k] = take k ix @ (drop k row)[0 := ix ! k]"
    using k by (simp add: list_update_append)
  also have "(drop k row)[0 := ix ! k] = ix ! k # drop (Suc k) row"
    using k Suc.prems(2) by (simp add: Cons_nth_drop_Suc[symmetric])
  also have "take k ix @ ix ! k # drop (Suc k) row = take (Suc k) ix @ drop (Suc k) row"
    using k by (simp add: take_Suc_conv_app_nth)
  finally show ?case using IH by simp
qed

lemma fill_columns:
  "fold (assign_column ix) zs m = map (fold (\<lambda>z r. r[z := ix ! z]) zs) m"
  by (induction zs arbitrary: m) (simp_all add: assign_column_def comp_def)

lemma explicit_rows:
  "fold (assign_column ix) [0..<length ix] (replicate N (replicate (length ix) 0)) = replicate N ix"
proof -
  have "fold (\<lambda>z r. r[z := ix ! z]) [0..<length ix] (replicate (length ix) 0) = ix"
    using fill_row[of "length ix" ix "replicate (length ix) 0"] by simp
  then show ?thesis by (simp add: fill_columns)
qed

text \<open>
  Claim C9. When the selection of the realizations returns, the number \<open>Z\<close> of
  selected realizations is at most the number \<open>R\<close> of realizations and the result is
  an \<open>N\<close> by \<open>Z\<close> matrix of indices, every row being the configured indices when
  \<^verbatim>\<open>rlz_index\<close> is given; and when more realizations are asked for than there are,
  the selection raises an exception instead of returning.
\<close>

theorem select_rlzs_bound:
  "(select_rlzs N R sids rlz_index n closest = Inr (Z, m) \<longrightarrow>
       Z \<le> R \<and> is_matrix N Z m \<and>
       (\<forall>ix. rlz_index = Some ix \<longrightarrow> Z = length ix \<and> m = replicate N ix))
   \<and> (int R < (case rlz_index of None \<Rightarrow> n | Some ix \<Rightarrow> int (length ix)) \<longrightarrow>
        (\<exists>e. select_rlzs N R sids rlz_index n closest = Inl e))"
proof (rule conjI; rule impI)
  assume s: "select_rlzs N R sids rlz_index n closest = Inr (Z, m)"
  then have b: "build_rlzs N R sids rlz_index n closest = Inr (Z, m)" and le: "Z \<le> R"
    by (auto simp: select_rlzs_def split: sum.splits if_splits)
  have mat: "is_matrix N Z m"
  proof (cases rlz_index)
    case None
    show ?thesis
    proof (cases "R > 1")
      case True
      then have "efold (\<lambda>sid. assign_row Z sid (take Z (closest sid))) sids (replicate N (replicate Z 0)) = Inr m"
        using b None by (auto simp: build_rlzs_def Let_def split: if_splits sum.splits)
      then show ?thesis
        by (rule assign_rows_matrix[OF is_matrix_zeros, where f = "\<lambda>sid. take Z (closest sid)"])
    next
      case False
      then have "m = replicate N (replicate Z 0)"
        using b None by (auto simp: build_rlzs_def Let_def split: if_splits)
      then show ?thesis using is_matrix_zeros by simp
    qed
  next
    case (Some ix)
    then have "Z = length ix" "m = replicate N ix"
      using b by (simp_all add: build_rlzs_def explicit_rows)
    then show ?thesis by (simp add: is_matrix_def list_all_iff)
  qed
  have ex: "\<forall>ix. rlz_index = Some ix \<longrightarrow> Z = length ix \<and> m = replicate N ix"
    using b by (auto simp: build_rlzs_def explicit_rows)
  show "Z \<le> R \<and> is_matrix N Z m \<and>
       (\<forall>ix. rlz_index = Some ix \<longrightarrow> Z = length ix \<and> m = replicate N ix)"
    using le mat ex by blast
next
  assume big: "int R < (case rlz_index of None \<Rightarrow> n | Some ix \<Rightarrow> int (length ix))"
  show "\<exists>e. select_rlzs N R sids rlz_index n closest = Inl e"
  proof (cases "build_rlzs N R sids rlz_index n closest")
    case (Inl e)
    then show ?thesis by (simp add: select_rlzs_def)
  next
    case (Inr zm)
    have "R < fst zm"
    proof (cases rlz_index)
      case None
      then have "fst zm = nat n"
        using Inr by (auto simp: build_rlzs_def Let_def split: if_splits sum.splits)
      then show ?thesis using big None by simp
    next
      case (Some ix)
      then have "fst zm = length ix" using Inr by (auto simp: build_rlzs_def)
      then show ?thesis using big Some by simp
    qed
    then show ?thesis using Inr by (simp add: select_rlzs_def)
  qed
qed

theorem select_rlzs_bound_witness:
  "select_rlzs 2 3 [0, 1] None 2 (\<lambda>sid. [1, 0, 2]) = Inr (2, [[1, 0], [1, 0]])
   \<and> (2::nat) \<le> 3 \<and> is_matrix 2 2 [[1, 0], [1, 0]]
   \<and> select_rlzs 2 3 [0, 1] (Some [2, 0]) 1 (\<lambda>sid. []) = Inr (2, replicate 2 [2, 0])
   \<and> (\<exists>e. select_rlzs 2 1 [0, 1] None 2 (\<lambda>sid. [0]) = Inl e)"
proof -
  have a: "select_rlzs 2 3 [0, 1] None 2 (\<lambda>sid. [1, 0, 2]) = Inr (2, [[1, 0], [1, 0]])"
    by (simp add: select_rlzs_def build_rlzs_def assign_row_def Let_def numeral_2_eq_2)
  have e: "fold (assign_column [2, 0]) [0..<length [2, 0 :: int]]
             (replicate 2 (replicate (length [2, 0 :: int]) 0)) = replicate 2 [2, 0]"
    by (rule explicit_rows)
  have b: "select_rlzs 2 3 [0, 1] (Some [2, 0]) 1 (\<lambda>sid. []) = Inr (2, replicate 2 [2, 0])"
    unfolding select_rlzs_def build_rlzs_def option.case e by simp
  have c: "int 1 < (case None of None \<Rightarrow> 2 | Some ix \<Rightarrow> int (length ix))" by simp
  show ?thesis
    using a b c
      select_rlzs_bound[of 2 3 "[0, 1]" None 2 "\<lambda>sid. [1, 0, 2]" 2 "[[1, 0], [1, 0]]"]
      select_rlzs_bound[of 2 1 "[0, 1]" None 2 "\<lambda>sid. [0]"]
    by blast
qed

section \<open>Properties of the combiner\<close>

text \<open>
  On probabilities each of the four operations of the rule errs by \<^verbatim>\<open>2**-53\<close> at
  most and stays in the unit interval, so the rule on floats is within \<^verbatim>\<open>2**-51\<close>
  of the rule on the reals.
\<close>

lemma dsub_one_unit:
  assumes "0 \<le> x" "x \<le> 1"
  shows "\<exists>r. dsub (Fin 1) (Fin x) = Fin r \<and> 0 \<le> r \<and> r \<le> 1 \<and> \<bar>r - (1 - x)\<bar> \<le> 1 / 2 ^ 53"
  using fl_unit[of "1 - x"] assms by simp

lemma dmul_unit:
  assumes "0 \<le> x" "x \<le> 1" "0 \<le> y" "y \<le> 1"
  shows "\<exists>r. dmul (Fin x) (Fin y) = Fin r \<and> 0 \<le> r \<and> r \<le> 1 \<and> \<bar>r - x * y\<bar> \<le> 1 / 2 ^ 53"
proof -
  have "0 \<le> x * y" using assms by simp
  moreover have "x * y \<le> 1" using assms by (simp add: mult_le_one)
  ultimately show ?thesis using fl_unit[of "x * y"] by simp
qed

lemma scaled_error:
  fixes q e d :: real
  assumes "0 \<le> q" "q \<le> 1" "\<bar>e\<bar> \<le> d"
  shows "\<bar>q * e\<bar> \<le> d"
proof -
  have "\<bar>q * e\<bar> = q * \<bar>e\<bar>" using assms(1) by (simp add: abs_mult)
  also have "\<dots> \<le> 1 * \<bar>e\<bar>" using assms(2) by (intro mult_right_mono) simp_all
  finally show ?thesis using assms(3) by simp
qed

lemma independent_error:
  assumes "0 \<le> a" "a \<le> 1" "0 \<le> b" "b \<le> 1"
  shows "\<exists>r. independent (Fin a) (Fin b) = Fin r \<and> 0 \<le> r \<and> r \<le> 1 \<and>
             \<bar>r - combine a b\<bar> \<le> 1 / 2 ^ 51"
proof -
  obtain qa where qa: "dsub (Fin 1) (Fin a) = Fin qa" "0 \<le> qa" "qa \<le> 1" "\<bar>qa - (1 - a)\<bar> \<le> 1 / 2 ^ 53"
    using dsub_one_unit[OF assms(1,2)] by blast
  obtain qb where qb: "dsub (Fin 1) (Fin b) = Fin qb" "0 \<le> qb" "qb \<le> 1" "\<bar>qb - (1 - b)\<bar> \<le> 1 / 2 ^ 53"
    using dsub_one_unit[OF assms(3,4)] by blast
  obtain m where m: "dmul (Fin qa) (Fin qb) = Fin m" "0 \<le> m" "m \<le> 1" "\<bar>m - qa * qb\<bar> \<le> 1 / 2 ^ 53"
    using dmul_unit[OF qa(2,3) qb(2,3)] by blast
  obtain r where r: "dsub (Fin 1) (Fin m) = Fin r" "0 \<le> r" "r \<le> 1" "\<bar>r - (1 - m)\<bar> \<le> 1 / 2 ^ 53"
    using dsub_one_unit[OF m(2,3)] by blast
  have run: "independent (Fin a) (Fin b) = Fin r"
    unfolding independent_def by (simp only: qa(1) qb(1) m(1) r(1))
  have e1: "\<bar>qa * (qb - (1 - b))\<bar> \<le> 1 / 2 ^ 53" using qa(2,3) qb(4) by (rule scaled_error)
  have b1: "0 \<le> 1 - b" "1 - b \<le> 1" using assms(3,4) by simp_all
  have e2: "\<bar>(1 - b) * (qa - (1 - a))\<bar> \<le> 1 / 2 ^ 53" using b1 qa(4) by (rule scaled_error)
  have split: "qa * qb - (1 - a) * (1 - b) = qa * (qb - (1 - b)) + (1 - b) * (qa - (1 - a))"
    by (simp add: algebra_simps)
  have "\<bar>qa * qb - (1 - a) * (1 - b)\<bar> \<le> 2 / 2 ^ 53"
    unfolding split using e1 e2 by linarith
  then have "\<bar>r - combine a b\<bar> \<le> 4 / 2 ^ 53"
    unfolding combine_def using m(4) r(4) by linarith
  then have "\<bar>r - combine a b\<bar> \<le> 1 / 2 ^ 51" by simp
  then show ?thesis using run r(2,3) by blast
qed

lemma combine_unit: "0 \<le> a \<Longrightarrow> a \<le> 1 \<Longrightarrow> 0 \<le> b \<Longrightarrow> b \<le> 1 \<Longrightarrow> 0 \<le> combine a b \<and> combine a b \<le> 1"
proof -
  assume h: "0 \<le> a" "a \<le> 1" "0 \<le> b" "b \<le> 1"
  have "0 \<le> (1 - a) * (1 - b)" using h by simp
  moreover have "(1 - a) * (1 - b) \<le> 1" using h by (simp add: mult_le_one)
  ultimately show ?thesis by (simp add: combine_def)
qed

lemma combine_assoc: "combine (combine a b) c = combine a (combine b c)"
  by (simp add: combine_def algebra_simps)

lemma combine_zero: "combine 0 p = p"
  by (simp add: combine_def)

lemma combine_shift_left:
  assumes "0 \<le> c" "c \<le> 1" "\<bar>r - s\<bar> \<le> d"
  shows "\<bar>combine r c - combine s c\<bar> \<le> d"
proof -
  have "combine r c - combine s c = (1 - c) * (r - s)" by (simp add: combine_def algebra_simps)
  moreover have "\<bar>(1 - c) * (r - s)\<bar> \<le> d" using assms by (intro scaled_error) simp_all
  ultimately show ?thesis by simp
qed

lemma combine_shift_right:
  assumes "0 \<le> a" "a \<le> 1" "\<bar>r - s\<bar> \<le> d"
  shows "\<bar>combine a r - combine a s\<bar> \<le> d"
proof -
  have "combine a r - combine a s = (1 - a) * (r - s)" by (simp add: combine_def algebra_simps)
  moreover have "\<bar>(1 - a) * (r - s)\<bar> \<le> d" using assms by (intro scaled_error) simp_all
  ultimately show ?thesis by simp
qed

lemma independent_assoc_error:
  assumes "0 \<le> a" "a \<le> 1" "0 \<le> b" "b \<le> 1" "0 \<le> c" "c \<le> 1"
  shows "\<exists>x y. independent (independent (Fin a) (Fin b)) (Fin c) = Fin x \<and>
               independent (Fin a) (independent (Fin b) (Fin c)) = Fin y \<and>
               \<bar>x - y\<bar> \<le> 1 / 2 ^ 49"
proof -
  obtain r1 where r1: "independent (Fin a) (Fin b) = Fin r1" "0 \<le> r1" "r1 \<le> 1"
      "\<bar>r1 - combine a b\<bar> \<le> 1 / 2 ^ 51"
    using independent_error[OF assms(1-4)] by blast
  obtain x where x: "independent (Fin r1) (Fin c) = Fin x" "\<bar>x - combine r1 c\<bar> \<le> 1 / 2 ^ 51"
    using independent_error[OF r1(2,3) assms(5,6)] by blast
  obtain r2 where r2: "independent (Fin b) (Fin c) = Fin r2" "0 \<le> r2" "r2 \<le> 1"
      "\<bar>r2 - combine b c\<bar> \<le> 1 / 2 ^ 51"
    using independent_error[OF assms(3-6)] by blast
  obtain y where y: "independent (Fin a) (Fin r2) = Fin y" "\<bar>y - combine a r2\<bar> \<le> 1 / 2 ^ 51"
    using independent_error[OF assms(1,2) r2(2,3)] by blast
  have s1: "\<bar>combine r1 c - combine (combine a b) c\<bar> \<le> 1 / 2 ^ 51"
    using assms(5,6) r1(4) by (rule combine_shift_left)
  have s2: "\<bar>combine a r2 - combine a (combine b c)\<bar> \<le> 1 / 2 ^ 51"
    using assms(1,2) r2(4) by (rule combine_shift_right)
  have "\<bar>x - y\<bar> \<le> 4 / 2 ^ 51"
    using x(2) y(2) s1 s2 combine_assoc[of a b c] by linarith
  then have "\<bar>x - y\<bar> \<le> 1 / 2 ^ 49" by simp
  then show ?thesis using r1(1) x(1) r2(1) y(1) by simp
qed

lemma dmul_commute: "dmul a b = dmul b a"
  by (cases a; cases b) (simp_all add: mult.commute dneg_def)

lemma independent_commute: "independent a b = independent b a"
  by (simp add: independent_def dmul_commute[of "dsub (Fin 1) a"])

lemma agg_probs_two_scalars: "agg_probs [Scalar a, Scalar b] = Inr (Scalar (independent a b))"
  by (simp add: agg_probs_def independent_def)

lemma independent_zero_near:
  assumes "probability p"
  shows "near (1 / 2 ^ 51) (independent (Fin 0) p) p"
proof -
  obtain x where p: "p = Fin x" "0 \<le> x" "x \<le> 1"
    using assms by (cases p) (simp_all add: probability_def)
  obtain r where "independent (Fin 0) (Fin x) = Fin r" "\<bar>r - combine 0 x\<bar> \<le> 1 / 2 ^ 51"
    using independent_error[of 0 x] p(2,3) by auto
  then show ?thesis using p(1) by (simp add: near_def combine_zero)
qed

lemma independent_halves: "independent (Fin (1 / 2)) (Fin (1 / 2)) = Fin (3 / 4)"
  by (simp add: independent_def fl_half fl_quarter fl_three_quarters)

lemma independent_zero_tiny: "independent (Fin 0) (Fin (1 / 2 ^ 60)) = Fin 0"
  using fl_near_one by (simp add: independent_def fl_one fl_zero)

subsection \<open>Three floats combined in two ways\<close>

text \<open>
  The roundings met when the floats \<^verbatim>\<open>2**-21\<close>, \<^verbatim>\<open>7 * 2**-34\<close> and \<^verbatim>\<open>5/8\<close> are
  combined from the left and from the right.
\<close>

lemma fl_assoc_0: "fl (2097151 / 2097152) = Fin (2097151 / 2097152)"
  using fl_exact[of 2097151 21] by simp

lemma fl_assoc_1: "fl (17179869177 / 17179869184) = Fin (17179869177 / 17179869184)"
  using fl_exact[of 17179869177 34] by simp

lemma fl_assoc_2: "fl (36028779824414727 / 36028797018963968) = Fin (4503597478051841 / 4503599627370496)"
proof -
  have "round64 (36028779824414727 / 36028797018963968) = 2 powi (-1 - 52) * of_int (round_half_even ((36028779824414727 / 36028797018963968) / 2 powi (-1 - 52)))"
    by (rule round64_in_binade) (simp_all add: power_int_minus)
  also have "\<dots> = 4503597478051841 / 4503599627370496" by (simp add: power_int_minus round_half_even_def)
  finally have r: "round64 (36028779824414727 / 36028797018963968) = 4503597478051841 / 4503599627370496" .
  show ?thesis by (rule fl_finite[of "36028779824414727 / 36028797018963968", unfolded r]) simp
qed

lemma fl_assoc_3: "fl (2149318655 / 4503599627370496) = Fin (2149318655 / 4503599627370496)"
  using fl_exact[of 2149318655 52] by simp

lemma fl_assoc_4: "fl (4503597478051841 / 4503599627370496) = Fin (4503597478051841 / 4503599627370496)"
  using fl_exact[of 4503597478051841 52] by simp

lemma fl_assoc_5: "fl (3 / 8) = Fin (3 / 8)"
  using fl_exact[of 3 3] by simp

lemma fl_assoc_6: "fl (13510792434155523 / 36028797018963968) = Fin (3377698108538881 / 9007199254740992)"
proof -
  have "round64 (13510792434155523 / 36028797018963968) = 2 powi (-2 - 52) * of_int (round_half_even ((13510792434155523 / 36028797018963968) / 2 powi (-2 - 52)))"
    by (rule round64_in_binade) (simp_all add: power_int_minus)
  also have "\<dots> = 3377698108538881 / 9007199254740992" by (simp add: power_int_minus round_half_even_def)
  finally have r: "round64 (13510792434155523 / 36028797018963968) = 3377698108538881 / 9007199254740992" .
  show ?thesis by (rule fl_finite[of "13510792434155523 / 36028797018963968", unfolded r]) simp
qed

lemma fl_assoc_7: "fl (5629501146202111 / 9007199254740992) = Fin (5629501146202111 / 9007199254740992)"
  using fl_exact[of 5629501146202111 53] by simp

lemma fl_assoc_8: "fl (51539607531 / 137438953472) = Fin (51539607531 / 137438953472)"
  using fl_exact[of 51539607531 37] by simp

lemma fl_assoc_9: "fl (85899345941 / 137438953472) = Fin (85899345941 / 137438953472)"
  using fl_exact[of 85899345941 37] by simp

lemma fl_assoc_10: "fl (108086339473244181 / 288230376151711744) = Fin (6755396217077761 / 18014398509481984)"
proof -
  have "round64 (108086339473244181 / 288230376151711744) = 2 powi (-2 - 52) * of_int (round_half_even ((108086339473244181 / 288230376151711744) / 2 powi (-2 - 52)))"
    by (rule round64_in_binade) (simp_all add: power_int_minus)
  also have "\<dots> = 6755396217077761 / 18014398509481984" by (simp add: power_int_minus round_half_even_def)
  finally have r: "round64 (108086339473244181 / 288230376151711744) = 6755396217077761 / 18014398509481984" .
  show ?thesis by (rule fl_finite[of "108086339473244181 / 288230376151711744", unfolded r]) simp
qed

lemma fl_assoc_11: "fl (11259002292404223 / 18014398509481984) = Fin (85899370517 / 137438953472)"
proof -
  have "round64 (11259002292404223 / 18014398509481984) = 2 powi (-1 - 52) * of_int (round_half_even ((11259002292404223 / 18014398509481984) / 2 powi (-1 - 52)))"
    by (rule round64_in_binade) (simp_all add: power_int_minus)
  also have "\<dots> = 85899370517 / 137438953472" by (simp add: power_int_minus round_half_even_def)
  finally have r: "round64 (11259002292404223 / 18014398509481984) = 85899370517 / 137438953472" .
  show ?thesis by (rule fl_finite[of "11259002292404223 / 18014398509481984", unfolded r]) simp
qed

lemma assoc_left: "independent (independent (Fin (1 / 2097152)) (Fin (7 / 17179869184))) (Fin (5 / 8)) = Fin (5629501146202111 / 9007199254740992)"
  by (simp add: independent_def fl_assoc_0 fl_assoc_1 fl_assoc_2 fl_assoc_3 fl_assoc_4 fl_assoc_5 fl_assoc_6 fl_assoc_7 fl_assoc_8 fl_assoc_9 fl_assoc_10 fl_assoc_11)

lemma assoc_right: "independent (Fin (1 / 2097152)) (independent (Fin (7 / 17179869184)) (Fin (5 / 8))) = Fin (85899370517 / 137438953472)"
  by (simp add: independent_def fl_assoc_0 fl_assoc_1 fl_assoc_2 fl_assoc_3 fl_assoc_4 fl_assoc_5 fl_assoc_6 fl_assoc_7 fl_assoc_8 fl_assoc_9 fl_assoc_10 fl_assoc_11)

subsection \<open>The float nearest to one tenth\<close>

text \<open>
  The float \<^verbatim>\<open>0.1\<close> is \<^verbatim>\<open>3602879701896397 / 2**55\<close>; its complement rounds to
  \<^verbatim>\<open>8106479329266893 / 2**53\<close>, the float \<^verbatim>\<open>0.9\<close>, and the complement of that is
  \<^verbatim>\<open>900719925474099 / 2**53\<close>, the float \<^verbatim>\<open>0.09999999999999998\<close>.
\<close>

lemma fl_tenth: "fl (3602879701896397 / 36028797018963968) = Fin (3602879701896397 / 36028797018963968)"
  using fl_exact[of 3602879701896397 55] by simp

lemma fl_tenth_complement:
  "fl (32425917317067571 / 36028797018963968) = Fin (8106479329266893 / 9007199254740992)"
proof -
  have "round64 (32425917317067571 / 36028797018963968) =
      2 powi (- 1 - 52) * of_int (round_half_even ((32425917317067571 / 36028797018963968) / 2 powi (- 1 - 52)))"
    by (rule round64_in_binade) (simp_all add: power_int_minus)
  also have "\<dots> = 8106479329266893 / 9007199254740992"
    by (simp add: power_int_minus round_half_even_def)
  finally have r: "round64 (32425917317067571 / 36028797018963968) = 8106479329266893 / 9007199254740992" .
  show ?thesis by (rule fl_finite[of "32425917317067571 / 36028797018963968", unfolded r]) simp
qed

lemma fl_nine_tenths: "fl (8106479329266893 / 9007199254740992) = Fin (8106479329266893 / 9007199254740992)"
  using fl_exact[of 8106479329266893 53] by simp

lemma fl_tenth_back: "fl (900719925474099 / 9007199254740992) = Fin (900719925474099 / 9007199254740992)"
  using fl_exact[of 900719925474099 53] by simp

lemma twice_complement_tenth:
  "dsub (Fin 1) (dsub (Fin 1) (Fin (3602879701896397 / 36028797018963968)))
     = Fin (900719925474099 / 9007199254740992)"
  by (simp add: fl_tenth_complement fl_tenth_back)

lemma independent_zero_tenth:
  "independent (Fin 0) (Fin (3602879701896397 / 36028797018963968))
     = Fin (900719925474099 / 9007199254740992)"
  by (simp add: independent_def fl_one fl_tenth_complement fl_nine_tenths fl_tenth_back)

section \<open>Merging the partial results\<close>

lemma ravel_unravel: "k < prod_list s \<Longrightarrow> ravel s (unravel s k) = k"
proof (induction s arbitrary: k)
  case Nil
  then show ?case by simp
next
  case (Cons d ds)
  have pos: "0 < prod_list ds" using Cons.prems by (cases "prod_list ds = 0") auto
  have m: "k mod prod_list ds < prod_list ds" using pos by simp
  have r: "ravel ds (unravel ds (k mod prod_list ds)) = k mod prod_list ds"
    using Cons.IH[OF m] .
  show ?case
  proof (cases "d = 1")
    case True
    then have "k < prod_list ds" using Cons.prems by simp
    then show ?thesis using True r by simp
  next
    case False
    then show ?thesis using r by simp
  qed
qed

lemma broadcast_cells_same: "length cs = prod_list s \<Longrightarrow> broadcast_cells s s cs = cs"
proof -
  assume l: "length cs = prod_list s"
  have "map (\<lambda>k. cs ! ravel s (unravel s k)) [0..<prod_list s] = map (\<lambda>k. cs ! k) [0..<prod_list s]"
    by (rule map_cong) (simp_all add: ravel_unravel)
  also have "\<dots> = map (\<lambda>k. cs ! k) [0..<length cs]" using l by simp
  also have "\<dots> = cs" by (rule map_nth)
  finally show ?thesis by (simp add: broadcast_cells_def)
qed

lemma broadcastable_same: "broadcastable s s"
  by (simp add: broadcastable_def list_all2_same)

lemma imul_same:
  "length cs = prod_list s \<Longrightarrow> length ds = prod_list s \<Longrightarrow>
   imul (Array s cs) (Array s ds) = Inr (Array s (map2 dmul cs ds))"
  by (simp add: broadcastable_same broadcast_cells_same)

lemma agg_probs_pair_same:
  assumes "length cs = prod_list s" "length ds = prod_list s"
  shows "agg_probs [Array s cs, Array s ds] = Inr (Array s (map2 independent cs ds))"
proof -
  have "map (dsub (Fin 1)) (map2 dmul (map (dsub (Fin 1)) cs) (map (dsub (Fin 1)) ds))
        = map2 independent cs ds"
    by (simp add: zip_map1 zip_map2 map_zip_map map_zip_map2 comp_def case_prod_unfold independent_def)
  moreover have "imul (Array s (map (dsub (Fin 1)) cs)) (Array s (map (dsub (Fin 1)) ds))
     = Inr (Array s (map2 dmul (map (dsub (Fin 1)) cs) (map (dsub (Fin 1)) ds)))"
    using assms by (intro imul_same) simp_all
  ultimately show ?thesis by (simp add: agg_probs_def del: imul.simps)
qed

lemma agg_probs_zero_left:
  "agg_probs [Scalar (Fin 0), Array s cs] = Inr (Array s (map (independent (Fin 0)) cs))"
  by (simp add: agg_probs_def comp_def independent_def)

lemma map2_replicate: "map2 f (replicate (length cs) z) cs = map (f z) cs"
  by (induction cs) simp_all

lemma agg_probs_merged:
  assumes "mergeable before probs"
  shows "agg_probs [case before of None \<Rightarrow> Scalar (Fin 0) | Some b \<Rightarrow> b, probs] = Inr (merged before probs)"
proof (cases before)
  case None
  obtain s cs where p: "probs = Array s cs" using assms by (cases probs) (auto simp: mergeable_def)
  show ?thesis using None p
    by (simp add: agg_probs_zero_left merged_def prior_cells_def map2_replicate)
next
  case (Some b)
  obtain s cs where p: "probs = Array s cs" and l: "length cs = prod_list s"
    using assms by (cases probs) (auto simp: mergeable_def)
  obtain bs where b: "b = Array s bs" and lb: "length bs = prod_list s"
    using assms Some p by (cases b) (auto simp: mergeable_def)
  show ?thesis using Some p b agg_probs_pair_same[OF lb l]
    by (simp add: merged_def prior_cells_def)
qed

lemma agg_site_merged:
  assumes "mergeable (slot acc (i, sid) (t, m)) probs"
  shows "agg_site i t m acc (sid, probs) =
           Inr (acc((i, sid) \<mapsto> (accum_get acc (i, sid))((t, m) \<mapsto> merged (slot acc (i, sid) (t, m)) probs)))"
  using agg_probs_merged[OF assms] by (simp add: agg_site_def slot_def Let_def)

lemma slot_upd:
  "slot (acc(k \<mapsto> (accum_get acc k)(b \<mapsto> v))) k' b' = (if k' = k \<and> b' = b then Some v else slot acc k' b')"
  by (simp add: slot_def accum_get_def)

lemma agg_sites_merged:
  assumes "distinct (map fst items)"
      and "\<forall>item\<in>set items. mergeable (slot acc (i, fst item) (t, m)) (snd item)"
  shows "\<exists>acc'. agg_sites i t m acc items = Inr acc' \<and>
      (\<forall>item\<in>set items. slot acc' (i, fst item) (t, m)
                            = Some (merged (slot acc (i, fst item) (t, m)) (snd item))) \<and>
      (\<forall>k b. (\<forall>item\<in>set items. (k, b) \<noteq> ((i, fst item), (t, m))) \<longrightarrow> slot acc' k b = slot acc k b)"
  using assms
proof (induction items arbitrary: acc)
  case Nil
  then show ?case by simp
next
  case (Cons item items)
  obtain sid probs where item: "item = (sid, probs)" by (cases item)
  let ?v = "merged (slot acc (i, sid) (t, m)) probs"
  let ?acc1 = "acc((i, sid) \<mapsto> (accum_get acc (i, sid))((t, m) \<mapsto> ?v))"
  have mg: "mergeable (slot acc (i, sid) (t, m)) probs" using Cons.prems(2) item by simp
  have step: "agg_site i t m acc item = Inr ?acc1" using agg_site_merged[OF mg] item by simp
  have notin: "sid \<notin> fst ` set items" using Cons.prems(1) item by simp
  have d: "distinct (map fst items)" using Cons.prems(1) by simp
  have same: "\<And>it. it \<in> set items \<Longrightarrow> slot ?acc1 (i, fst it) (t, m) = slot acc (i, fst it) (t, m)"
  proof -
    fix it assume "it \<in> set items"
    then have "fst it \<noteq> sid" using notin by auto
    then show "slot ?acc1 (i, fst it) (t, m) = slot acc (i, fst it) (t, m)"
      by (simp add: slot_upd)
  qed
  have pre: "\<forall>it\<in>set items. mergeable (slot ?acc1 (i, fst it) (t, m)) (snd it)"
    using Cons.prems(2) same by simp
  obtain acc' where r: "agg_sites i t m ?acc1 items = Inr acc'"
    and a: "\<forall>it\<in>set items. slot acc' (i, fst it) (t, m)
                            = Some (merged (slot ?acc1 (i, fst it) (t, m)) (snd it))"
    and f: "\<forall>k b. (\<forall>it\<in>set items. (k, b) \<noteq> ((i, fst it), (t, m))) \<longrightarrow> slot acc' k b = slot ?acc1 k b"
    using Cons.IH[OF d pre] by blast
  have run: "agg_sites i t m acc (item # items) = Inr acc'" using step r by simp
  have hd: "slot acc' (i, sid) (t, m) = Some ?v"
  proof -
    have "\<forall>it\<in>set items. ((i, sid), (t, m)) \<noteq> ((i, fst it), (t, m))" using notin by auto
    then have "slot acc' (i, sid) (t, m) = slot ?acc1 (i, sid) (t, m)" using f by blast
    then show ?thesis by (simp add: slot_upd)
  qed
  have all: "\<forall>it\<in>set (item # items). slot acc' (i, fst it) (t, m)
                            = Some (merged (slot acc (i, fst it) (t, m)) (snd it))"
    using hd a same item by simp
  have frame: "\<forall>k b. (\<forall>it\<in>set (item # items). (k, b) \<noteq> ((i, fst it), (t, m))) \<longrightarrow> slot acc' k b = slot acc k b"
  proof (intro allI impI)
    fix k b assume h: "\<forall>it\<in>set (item # items). (k, b) \<noteq> ((i, fst it), (t, m))"
    then have h': "\<forall>it\<in>set items. (k, b) \<noteq> ((i, fst it), (t, m))" by simp
    have e1: "slot acc' k b = slot ?acc1 k b" using f h' by blast
    have ne: "\<not> (k = (i, sid) \<and> b = (t, m))" using h item by auto
    have e2: "slot ?acc1 k b = slot acc k b" using ne by (simp only: slot_upd if_False)
    show "slot acc' k b = slot acc k b" using e1 e2 by simp
  qed
  show ?case using run all frame by blast
qed

lemma merged_None_near:
  assumes "wf probs" "shape probs \<noteq> []"
  shows "shape (merged None probs) = shape probs \<and>
         list_all2 (\<lambda>q p. probability p \<longrightarrow> near (1 / 2 ^ 51) q p)
                   (cells (merged None probs)) (cells probs)"
proof -
  obtain s cs where p: "probs = Array s cs" using assms(2) by (cases probs) simp_all
  have c: "cells (merged None probs) = map (independent (Fin 0)) cs"
    using p by (simp add: merged_def prior_cells_def map2_replicate)
  have "\<forall>x\<in>set cs. probability x \<longrightarrow> near (1 / 2 ^ 51) (independent (Fin 0) x) x"
    using independent_zero_near by blast
  then have "list_all2 (\<lambda>q p. probability p \<longrightarrow> near (1 / 2 ^ 51) q p) (map (independent (Fin 0)) cs) cs"
    by (simp only: list_all2_map1 list_all2_same)
  then show ?thesis using c p by (simp add: merged_def)
qed

text \<open>
  Claim C1. \<open>agg_result\<close> merges every partial matrix of a task result into the slot
  keyed by \<open>(imti, sid)\<close> and \<open>(trti, magi)\<close> with the rule of independent events as the
  code computes it on floats, cell by cell, an absent slot counting as zeros, and
  leaves every other slot alone. On probabilities the rule on floats is within
  \<^verbatim>\<open>2**-51\<close> of \<^verbatim>\<open>1 - (1 - before) * (1 - new)\<close>, and one half merged with one half
  is exactly three quarters. A partial matrix merged into an empty slot is stored
  with its shape and with every probability within \<^verbatim>\<open>2**-51\<close> of the cell it came
  from; the cell goes through the subtractions and the product of the rule and need
  not come out as it went in.
\<close>

theorem agg_result_merges:
  assumes "distinct (map fst (sites res))"
      and "\<forall>item\<in>set (sites res).
             mergeable (slot acc (imti res, fst item) (trti res, magi res)) (snd item)"
  shows "\<exists>acc'. agg_result acc res = Inr acc' \<and>
      (\<forall>item\<in>set (sites res).
          slot acc' (imti res, fst item) (trti res, magi res)
            = Some (merged (slot acc (imti res, fst item) (trti res, magi res)) (snd item))) \<and>
      (\<forall>item\<in>set (sites res).
          slot acc (imti res, fst item) (trti res, magi res) = None \<longrightarrow>
          (\<exists>stored. slot acc' (imti res, fst item) (trti res, magi res) = Some stored \<and>
             shape stored = shape (snd item) \<and>
             list_all2 (\<lambda>q p. probability p \<longrightarrow> near (1 / 2 ^ 51) q p)
                       (cells stored) (cells (snd item)))) \<and>
      (\<forall>k b. (\<forall>item\<in>set (sites res). (k, b) \<noteq> ((imti res, fst item), (trti res, magi res)))
               \<longrightarrow> slot acc' k b = slot acc k b) \<and>
      (\<forall>a b. 0 \<le> a \<and> a \<le> 1 \<and> 0 \<le> b \<and> b \<le> 1 \<longrightarrow>
             near (1 / 2 ^ 51) (independent (Fin a) (Fin b)) (Fin (combine a b))) \<and>
      independent (Fin (1 / 2)) (Fin (1 / 2)) = Fin (3 / 4)"
proof -
  obtain acc' where r: "agg_sites (imti res) (trti res) (magi res) acc (sites res) = Inr acc'"
    and a: "\<forall>item\<in>set (sites res).
          slot acc' (imti res, fst item) (trti res, magi res)
            = Some (merged (slot acc (imti res, fst item) (trti res, magi res)) (snd item))"
    and f: "\<forall>k b. (\<forall>item\<in>set (sites res). (k, b) \<noteq> ((imti res, fst item), (trti res, magi res)))
               \<longrightarrow> slot acc' k b = slot acc k b"
    using agg_sites_merged[OF assms] by blast
  have e: "\<forall>item\<in>set (sites res).
          slot acc (imti res, fst item) (trti res, magi res) = None \<longrightarrow>
          (\<exists>stored. slot acc' (imti res, fst item) (trti res, magi res) = Some stored \<and>
             shape stored = shape (snd item) \<and>
             list_all2 (\<lambda>q p. probability p \<longrightarrow> near (1 / 2 ^ 51) q p)
                       (cells stored) (cells (snd item)))"
  proof (intro ballI impI)
    fix item assume i: "item \<in> set (sites res)"
      and n: "slot acc (imti res, fst item) (trti res, magi res) = None"
    have "mergeable None (snd item)" using assms(2) i n by fastforce
    then have w: "wf (snd item)" "shape (snd item) \<noteq> []" by (simp_all add: mergeable_def)
    have s: "slot acc' (imti res, fst item) (trti res, magi res) = Some (merged None (snd item))"
      using a i n by simp
    show "\<exists>stored. slot acc' (imti res, fst item) (trti res, magi res) = Some stored \<and>
             shape stored = shape (snd item) \<and>
             list_all2 (\<lambda>q p. probability p \<longrightarrow> near (1 / 2 ^ 51) q p)
                       (cells stored) (cells (snd item))"
      using s merged_None_near[OF w] by blast
  qed
  have g: "\<forall>a b. 0 \<le> a \<and> a \<le> 1 \<and> 0 \<le> b \<and> b \<le> 1 \<longrightarrow>
             near (1 / 2 ^ 51) (independent (Fin a) (Fin b)) (Fin (combine a b))"
  proof (intro allI impI)
    fix a b :: real assume h: "0 \<le> a \<and> a \<le> 1 \<and> 0 \<le> b \<and> b \<le> 1"
    obtain r where "independent (Fin a) (Fin b) = Fin r" "\<bar>r - combine a b\<bar> \<le> 1 / 2 ^ 51"
      using independent_error[of a b] h by blast
    then show "near (1 / 2 ^ 51) (independent (Fin a) (Fin b)) (Fin (combine a b))"
      by (simp add: near_def)
  qed
  have h: "independent (Fin (1 / 2)) (Fin (1 / 2)) = Fin (3 / 4)" by (rule independent_halves)
  show ?thesis using r a e f g h unfolding agg_result_def by blast
qed

lemma independent_zero_half: "independent (Fin 0) (Fin (1 / 2)) = Fin (1 / 2)"
  by (simp add: independent_def fl_one fl_half)

lemma independent_zero_zero: "independent (Fin 0) (Fin 0) = Fin 0"
  by (simp add: independent_def fl_one fl_zero)

text \<open>
  Two tasks return the matrix \<open>[0.5, 0]\<close> for site 3: the empty slot takes the first
  as it is, the second merge gives \<open>[0.75, 0]\<close>.
\<close>

theorem agg_result_merges_witness:
  "\<exists>acc1 acc2.
     agg_result Map.empty \<lparr>trti = 0, magi = 1, imti = 0, sites = [(3, Array [2] [Fin (1 / 2), Fin 0])]\<rparr> = Inr acc1 \<and>
     slot acc1 (0, 3) (0, 1) = Some (Array [2] [Fin (1 / 2), Fin 0]) \<and>
     agg_result acc1 \<lparr>trti = 0, magi = 1, imti = 0, sites = [(3, Array [2] [Fin (1 / 2), Fin 0])]\<rparr> = Inr acc2 \<and>
     slot acc2 (0, 3) (0, 1) = Some (Array [2] [Fin (3 / 4), Fin 0])"
proof -
  let ?r = "\<lparr>trti = 0, magi = 1, imti = 0, sites = [(3, Array [2] [Fin (1 / 2), Fin 0])]\<rparr>"
  have d: "distinct (map fst (sites ?r))" by simp
  have s0: "slot Map.empty (0, 3) (0, 1) = None" by (simp add: slot_def accum_get_def)
  have m0: "\<forall>item\<in>set (sites ?r).
             mergeable (slot Map.empty (imti ?r, fst item) (trti ?r, magi ?r)) (snd item)"
    using s0 by (simp add: mergeable_def)
  have g0: "merged None (Array [2] [Fin (1 / 2), Fin 0]) = Array [2] [Fin (1 / 2), Fin 0]"
    by (simp add: merged_def prior_cells_def independent_zero_half independent_zero_zero)
  obtain acc1 where r1: "agg_result Map.empty ?r = Inr acc1"
    and v1': "slot acc1 (0, 3) (0, 1) = Some (merged (slot Map.empty (0, 3) (0, 1)) (Array [2] [Fin (1 / 2), Fin 0]))"
    using agg_result_merges[OF d m0] by auto
  have v1: "slot acc1 (0, 3) (0, 1) = Some (Array [2] [Fin (1 / 2), Fin 0])"
    using v1' s0 g0 by simp
  have m1: "\<forall>item\<in>set (sites ?r).
             mergeable (slot acc1 (imti ?r, fst item) (trti ?r, magi ?r)) (snd item)"
    using v1 by (simp add: mergeable_def)
  obtain acc2 where r2: "agg_result acc1 ?r = Inr acc2"
    and v2: "slot acc2 (0, 3) (0, 1) = Some (merged (slot acc1 (0, 3) (0, 1)) (Array [2] [Fin (1 / 2), Fin 0]))"
    using agg_result_merges[OF d m1] by auto
  have "merged (Some (Array [2] [Fin (1 / 2), Fin 0])) (Array [2] [Fin (1 / 2), Fin 0])
          = Array [2] [Fin (3 / 4), Fin 0]"
    by (simp add: merged_def prior_cells_def independent_halves independent_zero_zero)
  then show ?thesis using r1 v1 r2 v2 by (intro exI[of _ acc1] exI[of _ acc2]) simp
qed

text \<open>
  A partial matrix merged into an empty slot is not always stored unchanged: the
  float \<^verbatim>\<open>2**-60\<close> is stored as 0, because \<^verbatim>\<open>1. - 2**-60\<close> rounds to 1, and the
  float \<^verbatim>\<open>0.1\<close>, which is \<^verbatim>\<open>3602879701896397 / 2**55\<close>, is stored as
  \<^verbatim>\<open>0.09999999999999998\<close>, which is \<^verbatim>\<open>900719925474099 / 2**53\<close>.
\<close>

theorem agg_result_empty_slot_rounds:
  "fl (1 / 2 ^ 60) = Fin (1 / 2 ^ 60) \<and>
   (\<exists>acc1. agg_result Map.empty
              \<lparr>trti = 0, magi = 1, imti = 0, sites = [(3, Array [1] [Fin (1 / 2 ^ 60)])]\<rparr> = Inr acc1 \<and>
           slot acc1 (0, 3) (0, 1) = Some (Array [1] [Fin 0]) \<and>
           Array [1] [Fin 0] \<noteq> Array [1] [Fin (1 / 2 ^ 60)]) \<and>
   fl (3602879701896397 / 36028797018963968) = Fin (3602879701896397 / 36028797018963968) \<and>
   (\<exists>acc1. agg_result Map.empty
              \<lparr>trti = 0, magi = 1, imti = 0,
                 sites = [(3, Array [1] [Fin (3602879701896397 / 36028797018963968)])]\<rparr> = Inr acc1 \<and>
           slot acc1 (0, 3) (0, 1) = Some (Array [1] [Fin (900719925474099 / 9007199254740992)]) \<and>
           Array [1] [Fin (900719925474099 / 9007199254740992)]
             \<noteq> Array [1] [Fin (3602879701896397 / 36028797018963968)])"
proof -
  have run: "\<And>c r. independent (Fin 0) c = r \<Longrightarrow>
      agg_result Map.empty \<lparr>trti = 0, magi = 1, imti = 0, sites = [(3, Array [1] [c])]\<rparr>
        = Inr ([(0, 3) \<mapsto> [(0, 1) \<mapsto> Array [1] [r]]])"
  proof -
    fix c r assume i: "independent (Fin 0) c = r"
    have a: "agg_probs [Scalar (Fin 0), Array [1] [c]] = Inr (Array [1] [r])"
      by (simp only: agg_probs_zero_left list.map i)
    show "agg_result Map.empty \<lparr>trti = 0, magi = 1, imti = 0, sites = [(3, Array [1] [c])]\<rparr>
        = Inr ([(0, 3) \<mapsto> [(0, 1) \<mapsto> Array [1] [r]]])"
      using a by (simp add: agg_result_def agg_site_def accum_get_def del: agg_probs_def)
  qed
  have sl: "\<And>v. slot [(0, 3) \<mapsto> [(0, 1) \<mapsto> v]] (0, 3) (0, 1) = Some v"
    by (simp add: slot_def accum_get_def)
  have n1: "Array [1] [Fin 0] \<noteq> Array [1] [Fin (1 / 2 ^ 60)]" by simp
  have n2: "Array [1] [Fin (900719925474099 / 9007199254740992)]
             \<noteq> Array [1] [Fin (3602879701896397 / 36028797018963968)]" by simp
  have 1: "\<exists>acc1. agg_result Map.empty
              \<lparr>trti = 0, magi = 1, imti = 0, sites = [(3, Array [1] [Fin (1 / 2 ^ 60)])]\<rparr> = Inr acc1 \<and>
           slot acc1 (0, 3) (0, 1) = Some (Array [1] [Fin 0]) \<and>
           Array [1] [Fin 0] \<noteq> Array [1] [Fin (1 / 2 ^ 60)]"
    using run[OF independent_zero_tiny] sl n1 by blast
  have 2: "\<exists>acc1. agg_result Map.empty
              \<lparr>trti = 0, magi = 1, imti = 0,
                 sites = [(3, Array [1] [Fin (3602879701896397 / 36028797018963968)])]\<rparr> = Inr acc1 \<and>
           slot acc1 (0, 3) (0, 1) = Some (Array [1] [Fin (900719925474099 / 9007199254740992)]) \<and>
           Array [1] [Fin (900719925474099 / 9007199254740992)]
             \<noteq> Array [1] [Fin (3602879701896397 / 36028797018963968)]"
    using run[OF independent_zero_tenth] sl n2 by blast
  show ?thesis using fl_tiny 1 fl_tenth 2 by blast
qed

section \<open>Laws of the combiner\<close>

text \<open>
  Claim C2. On two numbers \<open>agg_probs\<close> computes the rule of independent events in
  floats. The rule is commutative for all floats. On probabilities it is within
  \<^verbatim>\<open>2**-51\<close> of \<^verbatim>\<open>1 - (1 - a) * (1 - b)\<close> over the reals, the two ways of
  combining three probabilities are within \<^verbatim>\<open>2**-49\<close> of each other, and combining 0
  with a probability gives it back within \<^verbatim>\<open>2**-51\<close>; associativity and the identity
  hold up to rounding, not exactly.
\<close>

theorem agg_probs_combine_laws:
  "agg_probs [Scalar a, Scalar b] = Inr (Scalar (independent a b))
   \<and> independent a b = independent b a
   \<and> (0 \<le> x \<and> x \<le> 1 \<and> 0 \<le> y \<and> y \<le> 1 \<and> 0 \<le> z \<and> z \<le> 1 \<longrightarrow>
        near (1 / 2 ^ 51) (independent (Fin x) (Fin y)) (Fin (combine x y))
      \<and> near (1 / 2 ^ 49) (independent (independent (Fin x) (Fin y)) (Fin z))
                            (independent (Fin x) (independent (Fin y) (Fin z)))
      \<and> near (1 / 2 ^ 51) (independent (Fin 0) (Fin x)) (Fin x))"
proof (intro conjI impI)
  show "agg_probs [Scalar a, Scalar b] = Inr (Scalar (independent a b))"
    by (rule agg_probs_two_scalars)
  show "independent a b = independent b a" by (rule independent_commute)
next
  assume h: "0 \<le> x \<and> x \<le> 1 \<and> 0 \<le> y \<and> y \<le> 1 \<and> 0 \<le> z \<and> z \<le> 1"
  obtain r where "independent (Fin x) (Fin y) = Fin r" "\<bar>r - combine x y\<bar> \<le> 1 / 2 ^ 51"
    using independent_error[of x y] h by blast
  then show "near (1 / 2 ^ 51) (independent (Fin x) (Fin y)) (Fin (combine x y))"
    by (simp add: near_def)
next
  assume h: "0 \<le> x \<and> x \<le> 1 \<and> 0 \<le> y \<and> y \<le> 1 \<and> 0 \<le> z \<and> z \<le> 1"
  obtain u v where "independent (independent (Fin x) (Fin y)) (Fin z) = Fin u"
      "independent (Fin x) (independent (Fin y) (Fin z)) = Fin v" "\<bar>u - v\<bar> \<le> 1 / 2 ^ 49"
    using independent_assoc_error[of x y z] h by blast
  then show "near (1 / 2 ^ 49) (independent (independent (Fin x) (Fin y)) (Fin z))
                            (independent (Fin x) (independent (Fin y) (Fin z)))"
    by (simp add: near_def)
next
  assume h: "0 \<le> x \<and> x \<le> 1 \<and> 0 \<le> y \<and> y \<le> 1 \<and> 0 \<le> z \<and> z \<le> 1"
  then have "probability (Fin x)" by (simp add: probability_def)
  then show "near (1 / 2 ^ 51) (independent (Fin 0) (Fin x)) (Fin x)"
    by (rule independent_zero_near)
qed

text \<open>The laws at one half.\<close>

theorem agg_probs_combine_laws_witness:
  "agg_probs [Scalar (Fin (1 / 2)), Scalar (Fin (1 / 2))] = Inr (Scalar (Fin (3 / 4)))
   \<and> near (1 / 2 ^ 51) (Fin (3 / 4)) (Fin (combine (1 / 2) (1 / 2)))
   \<and> near (1 / 2 ^ 49) (independent (Fin (3 / 4)) (Fin (1 / 2)))
                         (independent (Fin (1 / 2)) (Fin (3 / 4)))
   \<and> near (1 / 2 ^ 51) (independent (Fin 0) (Fin (1 / 2))) (Fin (1 / 2))"
proof -
  have h: "0 \<le> (1 / 2 :: real) \<and> (1 / 2 :: real) \<le> 1 \<and> 0 \<le> (1 / 2 :: real) \<and> (1 / 2 :: real) \<le> 1
           \<and> 0 \<le> (1 / 2 :: real) \<and> (1 / 2 :: real) \<le> 1" by simp
  note t = agg_probs_combine_laws[where a = "Fin (1 / 2)" and b = "Fin (1 / 2)"
             and x = "1 / 2" and y = "1 / 2" and z = "1 / 2"]
  have 1: "agg_probs [Scalar (Fin (1 / 2)), Scalar (Fin (1 / 2))]
             = Inr (Scalar (independent (Fin (1 / 2)) (Fin (1 / 2))))" using t by blast
  have 2: "near (1 / 2 ^ 51) (independent (Fin (1 / 2)) (Fin (1 / 2))) (Fin (combine (1 / 2) (1 / 2)))"
    using t h by blast
  have 3: "near (1 / 2 ^ 49) (independent (independent (Fin (1 / 2)) (Fin (1 / 2))) (Fin (1 / 2)))
                            (independent (Fin (1 / 2)) (independent (Fin (1 / 2)) (Fin (1 / 2))))"
    using t h by blast
  have 4: "near (1 / 2 ^ 51) (independent (Fin 0) (Fin (1 / 2))) (Fin (1 / 2))"
    using t h by blast
  show ?thesis using 1 2 3 4 by (simp only: independent_halves) 
qed

text \<open>
  Zero is not an identity and the rule is not associative on floats: combining 0
  with \<^verbatim>\<open>2**-60\<close> gives 0 and combining 0 with \<^verbatim>\<open>0.1\<close> gives
  \<^verbatim>\<open>0.09999999999999998\<close>, and the two ways of combining \<^verbatim>\<open>2**-21\<close>, \<^verbatim>\<open>7 * 2**-34\<close>
  and \<open>5/8\<close>, three floats, differ in the last bit.
\<close>

theorem agg_probs_laws_fail:
  "agg_probs [Scalar (Fin 0), Scalar (Fin (1 / 2 ^ 60))] = Inr (Scalar (Fin 0))
   \<and> Fin 0 \<noteq> Fin (1 / 2 ^ 60)
   \<and> independent (independent (Fin (1 / 2097152)) (Fin (7 / 17179869184))) (Fin (5 / 8))
       = Fin (5629501146202111 / 9007199254740992)
   \<and> independent (Fin (1 / 2097152)) (independent (Fin (7 / 17179869184)) (Fin (5 / 8)))
       = Fin (85899370517 / 137438953472)
   \<and> Fin (5629501146202111 / 9007199254740992) \<noteq> Fin (85899370517 / 137438953472)
   \<and> fl (1 / 2 ^ 60) = Fin (1 / 2 ^ 60)
   \<and> fl (1 / 2097152) = Fin (1 / 2097152)
   \<and> fl (7 / 17179869184) = Fin (7 / 17179869184)
   \<and> fl (5 / 8) = Fin (5 / 8)
   \<and> fl (3602879701896397 / 36028797018963968) = Fin (3602879701896397 / 36028797018963968)
   \<and> agg_probs [Scalar (Fin 0), Scalar (Fin (3602879701896397 / 36028797018963968))]
       = Inr (Scalar (Fin (900719925474099 / 9007199254740992)))
   \<and> Fin (900719925474099 / 9007199254740992) \<noteq> Fin (3602879701896397 / 36028797018963968)"
proof -
  have 1: "agg_probs [Scalar (Fin 0), Scalar (Fin (1 / 2 ^ 60))] = Inr (Scalar (Fin 0))"
    by (simp only: agg_probs_two_scalars independent_zero_tiny)
  have 2: "Fin 0 \<noteq> Fin (1 / 2 ^ 60)" by simp
  have 3: "Fin (5629501146202111 / 9007199254740992) \<noteq> Fin (85899370517 / 137438953472)" by simp
  have 4: "fl (1 / 2097152) = Fin (1 / 2097152)" using fl_exact[of 1 21] by simp
  have 5: "fl (7 / 17179869184) = Fin (7 / 17179869184)" using fl_exact[of 7 34] by simp
  have 6: "fl (5 / 8) = Fin (5 / 8)" using fl_exact[of 5 3] by simp
  have 7: "agg_probs [Scalar (Fin 0), Scalar (Fin (3602879701896397 / 36028797018963968))]
       = Inr (Scalar (Fin (900719925474099 / 9007199254740992)))"
    by (simp only: agg_probs_two_scalars independent_zero_tenth)
  have 8: "Fin (900719925474099 / 9007199254740992) \<noteq> Fin (3602879701896397 / 36028797018963968)"
    by simp
  show ?thesis using 1 2 assoc_left assoc_right 3 fl_tiny 4 5 6 fl_tenth 7 8 by blast
qed


section \<open>Bounds of the combiner\<close>

lemma agg_loop_unit:
  assumes "0 \<le> a" "a \<le> 1" "\<forall>p\<in>set ps. 0 \<le> p \<and> p \<le> 1"
  shows "\<exists>r. agg_loop (Scalar (Fin a)) (map (\<lambda>p. Scalar (Fin p)) ps) = Inr (Scalar (Fin r)) \<and>
             0 \<le> r \<and> r \<le> 1 \<and> r \<le> a + real (length ps) / 2 ^ 53 \<and>
             (\<forall>p\<in>set ps. r \<le> (1 - p) + (real (length ps) + 1) / 2 ^ 53)"
  using assms
proof (induction ps arbitrary: a)
  case Nil
  then show ?case by simp
next
  case (Cons p ps)
  have p: "0 \<le> p" "p \<le> 1" using Cons.prems(3) by simp_all
  obtain q where q: "dsub (Fin 1) (Fin p) = Fin q" "0 \<le> q" "q \<le> 1" "\<bar>q - (1 - p)\<bar> \<le> 1 / 2 ^ 53"
    using dsub_one_unit[OF p] by blast
  obtain a1 where a1: "dmul (Fin a) (Fin q) = Fin a1" "0 \<le> a1" "a1 \<le> 1" "\<bar>a1 - a * q\<bar> \<le> 1 / 2 ^ 53"
    using dmul_unit[OF Cons.prems(1,2) q(2,3)] by blast
  have rest: "\<forall>p\<in>set ps. 0 \<le> p \<and> p \<le> 1" using Cons.prems(3) by simp
  obtain r where r: "agg_loop (Scalar (Fin a1)) (map (\<lambda>p. Scalar (Fin p)) ps) = Inr (Scalar (Fin r))"
      "0 \<le> r" "r \<le> 1" "r \<le> a1 + real (length ps) / 2 ^ 53"
      "\<forall>p\<in>set ps. r \<le> (1 - p) + (real (length ps) + 1) / 2 ^ 53"
    using Cons.IH[OF a1(2,3) rest] by blast
  have run: "agg_loop (Scalar (Fin a)) (map (\<lambda>p. Scalar (Fin p)) (p # ps)) = Inr (Scalar (Fin r))"
    using q(1) a1(1) r(1) by simp
  have "a * q \<le> a * 1" using Cons.prems(1) q(3) by (intro mult_left_mono) simp_all
  then have le_a: "a * q \<le> a" by simp
  have "a * q \<le> 1 * q" using Cons.prems(2) q(2) by (intro mult_right_mono) simp_all
  then have le_q: "a * q \<le> q" by simp
  have len: "real (length (p # ps)) / 2 ^ 53 = real (length ps) / 2 ^ 53 + 1 / 2 ^ 53"
    by (simp add: add_divide_distrib)
  have len1: "(real (length (p # ps)) + 1) / 2 ^ 53 = real (length ps) / 2 ^ 53 + 2 * (1 / 2 ^ 53)"
    by (simp add: add_divide_distrib)
  have len2: "(real (length ps) + 1) / 2 ^ 53 = real (length ps) / 2 ^ 53 + 1 / 2 ^ 53"
    by (simp add: add_divide_distrib)
  have dpos: "(0::real) \<le> 1 / 2 ^ 53" by simp
  have b1: "r \<le> a + real (length (p # ps)) / 2 ^ 53"
    unfolding len using r(4) a1(4) le_a by linarith
  have b2: "r \<le> (1 - p) + (real (length (p # ps)) + 1) / 2 ^ 53"
    unfolding len1 using r(4) a1(4) le_q q(4) by linarith
  have b3: "\<forall>p'\<in>set ps. r \<le> (1 - p') + (real (length (p # ps)) + 1) / 2 ^ 53"
  proof
    fix p' assume "p' \<in> set ps"
    then have "r \<le> (1 - p') + (real (length ps) + 1) / 2 ^ 53" using r(5) by blast
    then show "r \<le> (1 - p') + (real (length (p # ps)) + 1) / 2 ^ 53"
      unfolding len1 len2 using dpos by linarith
  qed
  have "\<forall>p'\<in>set (p # ps). r \<le> (1 - p') + (real (length (p # ps)) + 1) / 2 ^ 53"
    using b2 b3 by simp
  then show ?case using run r(2,3) b1 by blast
qed

lemma agg_probs_single: "agg_probs [a] = Inr (rsub1 (rsub1 a))"
  by (simp add: agg_probs_def)

lemma twice_complement_near:
  assumes "probability c"
  shows "near (1 / 2 ^ 52) (dsub (Fin 1) (dsub (Fin 1) c)) c"
proof -
  obtain x where c: "c = Fin x" "0 \<le> x" "x \<le> 1"
    using assms by (cases c) (simp_all add: probability_def)
  obtain q where q: "dsub (Fin 1) (Fin x) = Fin q" "0 \<le> q" "q \<le> 1" "\<bar>q - (1 - x)\<bar> \<le> 1 / 2 ^ 53"
    using dsub_one_unit[OF c(2,3)] by blast
  obtain r where r: "dsub (Fin 1) (Fin q) = Fin r" "\<bar>r - (1 - q)\<bar> \<le> 1 / 2 ^ 53"
    using dsub_one_unit[OF q(2,3)] by blast
  have "\<bar>r - x\<bar> \<le> 2 / 2 ^ 53" using q(4) r(2) by linarith
  then have "\<bar>r - x\<bar> \<le> 1 / 2 ^ 52" by simp
  then show ?thesis using c(1) q(1) r(1) by (simp add: near_def)
qed

lemma agg_probs_unpacked_single:
  assumes "length cs = prod_list (d # ds)"
  shows "agg_probs_unpacked (Array (1 # d # ds) cs) =
           Inr (Array (d # ds) (map (\<lambda>c. dsub (Fin 1) (dsub (Fin 1) c)) cs))"
proof -
  have "unpack (Array (1 # d # ds) cs) = Inr [Array (d # ds) cs]" using assms by simp
  then show ?thesis by (simp add: agg_probs_unpacked_def agg_probs_single comp_def del: unpack.simps)
qed

text \<open>
  Claim C10. For a non-empty sequence of probabilities \<open>agg_probs\<close> returns a
  probability, and the result is at least every argument less \<^verbatim>\<open>(n + 1) * 2**-53\<close> for
  \<open>n\<close> arguments: every subtraction and every product rounds. Applied to a single
  argument it returns \<^verbatim>\<open>1. - (1. - a)\<close>, which is within \<^verbatim>\<open>2**-52\<close> of a probability
  \<open>a\<close>, so collapsing an axis of length one keeps the shape of the matrix and
  changes a probability in it by \<^verbatim>\<open>2**-52\<close> at most.
\<close>

theorem agg_probs_unit_interval:
  assumes "ps \<noteq> []" "\<forall>p\<in>set ps. 0 \<le> p \<and> p \<le> 1"
  shows "(\<exists>r. agg_probs (map (\<lambda>p. Scalar (Fin p)) ps) = Inr (Scalar (Fin r)) \<and> 0 \<le> r \<and> r \<le> 1 \<and>
              (\<forall>p\<in>set ps. p - (real (length ps) + 1) / 2 ^ 53 \<le> r))
       \<and> agg_probs [a] = Inr (rsub1 (rsub1 a))
       \<and> (probability c \<longrightarrow> near (1 / 2 ^ 52) (dsub (Fin 1) (dsub (Fin 1) c)) c)
       \<and> (length cs = prod_list (d # ds) \<longrightarrow>
            agg_probs_unpacked (Array (1 # d # ds) cs) =
              Inr (Array (d # ds) (map (\<lambda>c. dsub (Fin 1) (dsub (Fin 1) c)) cs)))"
proof -
  obtain p0 rest where ps: "ps = p0 # rest" using assms(1) by (cases ps) simp_all
  have p0: "0 \<le> p0" "p0 \<le> 1" and rest: "\<forall>p\<in>set rest. 0 \<le> p \<and> p \<le> 1"
    using assms(2) ps by simp_all
  obtain q0 where q0: "dsub (Fin 1) (Fin p0) = Fin q0" "0 \<le> q0" "q0 \<le> 1"
      "\<bar>q0 - (1 - p0)\<bar> \<le> 1 / 2 ^ 53"
    using dsub_one_unit[OF p0] by blast
  obtain r' where r': "agg_loop (Scalar (Fin q0)) (map (\<lambda>p. Scalar (Fin p)) rest) = Inr (Scalar (Fin r'))"
      "0 \<le> r'" "r' \<le> 1" "r' \<le> q0 + real (length rest) / 2 ^ 53"
      "\<forall>p\<in>set rest. r' \<le> (1 - p) + (real (length rest) + 1) / 2 ^ 53"
    using agg_loop_unit[OF q0(2,3) rest] by blast
  obtain r where r: "dsub (Fin 1) (Fin r') = Fin r" "0 \<le> r" "r \<le> 1" "\<bar>r - (1 - r')\<bar> \<le> 1 / 2 ^ 53"
    using dsub_one_unit[OF r'(2,3)] by blast
  have run: "agg_probs (map (\<lambda>p. Scalar (Fin p)) ps) = Inr (Scalar (Fin r))"
    using ps q0(1) r'(1) r(1) by (simp add: agg_probs_def)
  have len: "(real (length ps) + 1) / 2 ^ 53 = real (length rest) / 2 ^ 53 + 2 * (1 / 2 ^ 53)"
    using ps by (simp add: add_divide_distrib)
  have len2: "(real (length rest) + 1) / 2 ^ 53 = real (length rest) / 2 ^ 53 + 1 / 2 ^ 53"
    by (simp add: add_divide_distrib)
  have b0: "p0 - (real (length ps) + 1) / 2 ^ 53 \<le> r"
    unfolding len using r'(4) q0(4) r(4) by linarith
  have b1: "\<forall>p\<in>set rest. p - (real (length ps) + 1) / 2 ^ 53 \<le> r"
  proof
    fix p assume "p \<in> set rest"
    then have "r' \<le> (1 - p) + (real (length rest) + 1) / 2 ^ 53" using r'(5) by blast
    then show "p - (real (length ps) + 1) / 2 ^ 53 \<le> r"
      unfolding len len2 using r(4) by linarith
  qed
  have "\<forall>p\<in>set ps. p - (real (length ps) + 1) / 2 ^ 53 \<le> r" using b0 b1 ps by simp
  then have 1: "\<exists>r. agg_probs (map (\<lambda>p. Scalar (Fin p)) ps) = Inr (Scalar (Fin r)) \<and> 0 \<le> r \<and> r \<le> 1 \<and>
              (\<forall>p\<in>set ps. p - (real (length ps) + 1) / 2 ^ 53 \<le> r)"
    using run r(2,3) by blast
  show ?thesis using 1 agg_probs_single twice_complement_near agg_probs_unpacked_single by blast
qed

text \<open>Two arguments one half, and an axis of length one over the cell one half.\<close>

theorem agg_probs_unit_interval_witness:
  "(\<exists>r. agg_probs [Scalar (Fin (1 / 2)), Scalar (Fin (1 / 2))] = Inr (Scalar (Fin r)) \<and>
        0 \<le> r \<and> r \<le> 1 \<and> 1 / 2 - 3 / 2 ^ 53 \<le> r)
   \<and> agg_probs [Array [1] [Fin (1 / 2)]] = Inr (Array [1] [Fin (1 / 2)])
   \<and> near (1 / 2 ^ 52) (Fin (1 / 2)) (Fin (1 / 2))
   \<and> agg_probs_unpacked (Array [1, 1] [Fin (1 / 2)]) = Inr (Array [1] [Fin (1 / 2)])"
proof -
  have h1: "[1 / 2, 1 / 2 :: real] \<noteq> []" by simp
  have h2: "\<forall>p\<in>set [1 / 2, 1 / 2 :: real]. 0 \<le> p \<and> p \<le> 1" by simp
  have h3: "probability (Fin (1 / 2))" by (simp add: probability_def)
  have h4: "length [Fin (1 / 2)] = prod_list (1 # [])" by simp
  have cc: "dsub (Fin 1) (dsub (Fin 1) (Fin (1 / 2))) = Fin (1 / 2)" by (simp add: fl_half)
  note t = agg_probs_unit_interval[OF h1 h2, where a = "Array [1] [Fin (1 / 2)]"
             and c = "Fin (1 / 2)" and cs = "[Fin (1 / 2)]" and d = 1 and ds = "[]"]
  obtain r where r: "agg_probs (map (\<lambda>p. Scalar (Fin p)) [1 / 2, 1 / 2]) = Inr (Scalar (Fin r))"
      "0 \<le> r" "r \<le> 1" "\<forall>p\<in>set [1 / 2, 1 / 2 :: real]. p - (real (length [1 / 2, 1 / 2 :: real]) + 1) / 2 ^ 53 \<le> r"
    using t by blast
  have r4: "1 / 2 - 3 / 2 ^ 53 \<le> r" using r(4) by simp
  have 1: "\<exists>r. agg_probs [Scalar (Fin (1 / 2)), Scalar (Fin (1 / 2))] = Inr (Scalar (Fin r)) \<and>
        0 \<le> r \<and> r \<le> 1 \<and> 1 / 2 - 3 / 2 ^ 53 \<le> r"
    using r(1,2,3) r4 by (intro exI[of _ r]) simp
  have "agg_probs [Array [1] [Fin (1 / 2)]] = Inr (rsub1 (rsub1 (Array [1] [Fin (1 / 2)])))"
    using t by blast
  then have 2: "agg_probs [Array [1] [Fin (1 / 2)]] = Inr (Array [1] [Fin (1 / 2)])"
    using cc by simp
  have "near (1 / 2 ^ 52) (dsub (Fin 1) (dsub (Fin 1) (Fin (1 / 2)))) (Fin (1 / 2))"
    using t h3 by blast
  then have 3: "near (1 / 2 ^ 52) (Fin (1 / 2)) (Fin (1 / 2))" by (simp only: cc)
  have "agg_probs_unpacked (Array (1 # 1 # []) [Fin (1 / 2)]) =
              Inr (Array (1 # []) (map (\<lambda>c. dsub (Fin 1) (dsub (Fin 1) c)) [Fin (1 / 2)]))"
    using t h4 by blast
  then have 4: "agg_probs_unpacked (Array [1, 1] [Fin (1 / 2)]) = Inr (Array [1] [Fin (1 / 2)])"
    using cc by simp
  show ?thesis using 1 2 3 4 by blast
qed

text \<open>
  The result can be below an argument, and a single argument is not always returned
  unchanged: \<open>agg_probs\<close> of the float \<^verbatim>\<open>2**-60\<close> is 0, and so is the cell of a matrix
  with an axis of length one that is collapsed; \<open>agg_probs\<close> of the float \<^verbatim>\<open>0.1\<close>,
  which is \<^verbatim>\<open>3602879701896397 / 2**55\<close>, is \<^verbatim>\<open>0.09999999999999998\<close>, which is
  \<^verbatim>\<open>900719925474099 / 2**53\<close>.
\<close>

theorem agg_probs_single_rounds:
  "fl (1 / 2 ^ 60) = Fin (1 / 2 ^ 60)
   \<and> agg_probs [Scalar (Fin (1 / 2 ^ 60))] = Inr (Scalar (Fin 0))
   \<and> (0 :: real) < 1 / 2 ^ 60
   \<and> agg_probs_unpacked (Array [1, 1] [Fin (1 / 2 ^ 60)]) = Inr (Array [1] [Fin 0])
   \<and> fl (3602879701896397 / 36028797018963968) = Fin (3602879701896397 / 36028797018963968)
   \<and> agg_probs [Scalar (Fin (3602879701896397 / 36028797018963968))]
       = Inr (Scalar (Fin (900719925474099 / 9007199254740992)))
   \<and> (900719925474099 / 9007199254740992 :: real) < 3602879701896397 / 36028797018963968"
proof -
  have cc: "dsub (Fin 1) (dsub (Fin 1) (Fin (1 / 2 ^ 60))) = Fin 0"
    using fl_near_one by (simp add: fl_zero)
  have 1: "agg_probs [Scalar (Fin (1 / 2 ^ 60))] = Inr (Scalar (Fin 0))"
    using cc by (simp only: agg_probs_single rsub1.simps)
  have "length [Fin (1 / 2 ^ 60)] = prod_list (1 # [])" by simp
  then have "agg_probs_unpacked (Array (1 # 1 # []) [Fin (1 / 2 ^ 60)]) =
      Inr (Array (1 # []) (map (\<lambda>c. dsub (Fin 1) (dsub (Fin 1) c)) [Fin (1 / 2 ^ 60)]))"
    by (rule agg_probs_unpacked_single)
  then have 2: "agg_probs_unpacked (Array [1, 1] [Fin (1 / 2 ^ 60)]) = Inr (Array [1] [Fin 0])"
    using cc by (simp only: list.map)
  have 3: "agg_probs [Scalar (Fin (3602879701896397 / 36028797018963968))]
       = Inr (Scalar (Fin (900719925474099 / 9007199254740992)))"
    using twice_complement_tenth by (simp only: agg_probs_single rsub1.simps)
  have 4: "(0 :: real) < 1 / 2 ^ 60" by simp
  have 5: "(900719925474099 / 9007199254740992 :: real) < 3602879701896397 / 36028797018963968"
    by simp
  show ?thesis using fl_tiny 1 4 2 fl_tenth 3 5 by blast
qed

section \<open>Zero matrices are skipped\<close>









lemma example_name:
  "disp_name ''disagg'' (Rlz 0) ''PGA'' 0 0 = ''disagg/rlz-0-PGA-sid-0-poe-0/''"
  by (simp add: disp_name_def rlz_prefix_def show_int_def show_nat_small digit_char_def)





section \<open>The probability mass functions by name\<close>

lemma store_pmfs_other:
  "key \<notin> fst ` set table \<Longrightarrow>
   store_pmfs outs name m6 agg table ds (name @ key) = ds (name @ key)"
proof (induction table arbitrary: ds)
  case Nil
  then show ?case by simp
next
  case (Cons e table)
  obtain k fn where e: "e = (k, fn)" by (cases e)
  have "k \<noteq> key" and "key \<notin> fst ` set table" using Cons.prems e by auto
  then show ?case using Cons.IH e by simp
qed

lemma store_pmfs_lookup:
  "distinct (map fst table) \<Longrightarrow> (key, fn) \<in> set table \<Longrightarrow>
   store_pmfs outs name m6 agg table ds (name @ key) =
     (if requested outs key then Some (fn (if endswith key ''TRT'' then m6 else agg))
      else ds (name @ key))"
proof (induction table arbitrary: ds)
  case Nil
  then show ?case by simp
next
  case (Cons e table)
  obtain k f where e: "e = (k, f)" by (cases e)
  show ?case
  proof (cases "(key, fn) = e")
    case True
    then have kf: "k = key" "f = fn" using e by simp_all
    have "key \<notin> fst ` set table" using Cons.prems(1) e kf by simp
    then show ?thesis using e kf by (simp add: store_pmfs_other)
  next
    case False
    then have in_t: "(key, fn) \<in> set table" using Cons.prems(2) by simp
    then have "key \<in> fst ` set table" by force
    then have "k \<noteq> key" using Cons.prems(1) e by auto
    moreover have "distinct (map fst table)" using Cons.prems(1) by simp
    ultimately show ?thesis using Cons.IH in_t e by simp
  qed
qed

lemma agg_loop_same:
  assumes "length acc = prod_list s" "\<forall>c\<in>set css. length c = prod_list s"
  shows "agg_loop (Array s acc) (map (Array s) css) =
         Inr (Array s (map (\<lambda>k. fold (\<lambda>c a. dmul a (dsub (Fin 1) (c ! k))) css (acc ! k))
                           [0..<prod_list s]))"
  using assms
proof (induction css arbitrary: acc)
  case Nil
  have "map (\<lambda>k. acc ! k) [0..<length acc] = acc" by (rule map_nth)
  then show ?case using Nil by simp
next
  case (Cons c css)
  have lc: "length c = prod_list s" using Cons.prems(2) by simp
  let ?acc1 = "map2 dmul acc (map (dsub (Fin 1)) c)"
  have step: "imul (Array s acc) (rsub1 (Array s c)) = Inr (Array s ?acc1)"
    using imul_same[of acc s "map (dsub (Fin 1)) c"] Cons.prems(1) lc by simp
  have l1: "length ?acc1 = prod_list s" using Cons.prems(1) lc by simp
  have IH: "agg_loop (Array s ?acc1) (map (Array s) css) =
         Inr (Array s (map (\<lambda>k. fold (\<lambda>c a. dmul a (dsub (Fin 1) (c ! k))) css (?acc1 ! k))
                           [0..<prod_list s]))"
    using Cons.IH[OF l1] Cons.prems(2) by simp
  have "map (\<lambda>k. fold (\<lambda>c a. dmul a (dsub (Fin 1) (c ! k))) css (?acc1 ! k)) [0..<prod_list s]
      = map (\<lambda>k. fold (\<lambda>c a. dmul a (dsub (Fin 1) (c ! k))) (c # css) (acc ! k)) [0..<prod_list s]"
  proof (rule map_cong)
    fix k assume "k \<in> set [0..<prod_list s]"
    then have k: "k < length acc" "k < length c" using Cons.prems(1) lc by simp_all
    then have "?acc1 ! k = dmul (acc ! k) (dsub (Fin 1) (c ! k))" by simp
    then show "fold (\<lambda>c a. dmul a (dsub (Fin 1) (c ! k))) css (?acc1 ! k)
             = fold (\<lambda>c a. dmul a (dsub (Fin 1) (c ! k))) (c # css) (acc ! k)"
      by simp
  qed simp
  then show ?case using step IH by (simp del: imul.simps rsub1.simps)
qed

lemma agg_probs_same:
  assumes "\<forall>c\<in>set (c0 # css). length c = prod_list s"
  shows "agg_probs (map (Array s) (c0 # css)) =
         Inr (Array s (map (\<lambda>k. dsub (Fin 1)
                                   (fold (\<lambda>c a. dmul a (dsub (Fin 1) (c ! k))) css (dsub (Fin 1) (c0 ! k))))
                           [0..<prod_list s]))"
proof -
  have l0: "length (map (dsub (Fin 1)) c0) = prod_list s" using assms by simp
  have loop: "agg_loop (Array s (map (dsub (Fin 1)) c0)) (map (Array s) css) =
     Inr (Array s (map (\<lambda>k. fold (\<lambda>c a. dmul a (dsub (Fin 1) (c ! k))) css (map (dsub (Fin 1)) c0 ! k))
                       [0..<prod_list s]))"
    using agg_loop_same[OF l0] assms by simp
  have "map (dsub (Fin 1))
          (map (\<lambda>k. fold (\<lambda>c a. dmul a (dsub (Fin 1) (c ! k))) css (map (dsub (Fin 1)) c0 ! k))
               [0..<prod_list s])
      = map (\<lambda>k. dsub (Fin 1)
                    (fold (\<lambda>c a. dmul a (dsub (Fin 1) (c ! k))) css (dsub (Fin 1) (c0 ! k))))
            [0..<prod_list s]"
  proof -
    have "\<And>k. k \<in> set [0..<prod_list s] \<Longrightarrow> map (dsub (Fin 1)) c0 ! k = dsub (Fin 1) (c0 ! k)"
      using assms by simp
    then show ?thesis by (simp add: comp_def)
  qed
  then show ?thesis using loop by (simp add: agg_probs_def)
qed

lemma slice_length:
  assumes "length cs = T * K" "t < T"
  shows "length (take K (drop (t * K) cs)) = K"
proof -
  have "Suc t * K \<le> T * K" using assms(2) by (intro mult_le_mono1) simp
  then have "t * K + K \<le> length cs" using assms(1) by simp
  then show ?thesis by simp
qed

lemma slice_nth:
  assumes "length cs = T * K" "t < T" "k < K"
  shows "take K (drop (t * K) cs) ! k = cs ! (t * K + k)"
proof -
  have "Suc t * K \<le> T * K" using assms(2) by (intro mult_le_mono1) simp
  then have "t * K + k < length cs" using assms(1,3) by simp
  then show ?thesis using assms(3) by simp
qed

lemma fold_slices:
  assumes "length cs = T * K" "k < K"
  shows "fold (\<lambda>c a. dmul a (dsub (Fin 1) (c ! k))) (map (\<lambda>t. take K (drop (t * K) cs)) [1..<T]) a0
       = fold (\<lambda>t a. dmul a (dsub (Fin 1) (cs ! (t * K + k)))) [1..<T] a0"
proof -
  have "fold (\<lambda>c a. dmul a (dsub (Fin 1) (c ! k))) (map (\<lambda>t. take K (drop (t * K) cs)) [1..<T]) a0
      = fold (\<lambda>t a. dmul a (dsub (Fin 1) (take K (drop (t * K) cs) ! k))) [1..<T] a0"
    by (simp add: fold_map comp_def)
  also have "\<dots> = fold (\<lambda>t a. dmul a (dsub (Fin 1) (cs ! (t * K + k)))) [1..<T] a0"
  proof (rule fold_cong)
    fix t assume "t \<in> set [1..<T]"
    then have "t < T" by simp
    then have "take K (drop (t * K) cs) ! k = cs ! (t * K + k)"
      using slice_nth[OF assms(1) _ assms(2)] by simp
    then show "(\<lambda>a. dmul a (dsub (Fin 1) (take K (drop (t * K) cs) ! k)))
             = (\<lambda>a. dmul a (dsub (Fin 1) (cs ! (t * K + k))))" by simp
  qed simp_all
  finally show ?thesis .
qed

lemma agg_probs_unpacked_closed:
  assumes "length cs = T * prod_list (d # ds)" "0 < T"
  shows "agg_probs_unpacked (Array (T # d # ds) cs) =
         Inr (Array (d # ds) (map (collapsed_cell T (prod_list (d # ds)) cs) [0..<prod_list (d # ds)]))"
proof -
  let ?K = "prod_list (d # ds)"
  let ?sl = "\<lambda>t. take ?K (drop (t * ?K) cs)"
  let ?rest = "map ?sl [1..<T]"
  have upt: "[0..<T] = 0 # [1..<T]" using assms(2) by (simp add: upt_conv_Cons)
  have u: "unpack (Array (T # d # ds) cs) = Inr (map (Array (d # ds)) (?sl 0 # ?rest))"
    by (simp add: comp_def upt del: upt_Suc)
  have lens: "\<forall>c\<in>set (?sl 0 # ?rest). length c = ?K"
  proof
    fix c assume "c \<in> set (?sl 0 # ?rest)"
    then obtain t where "t < T" "c = ?sl t" using assms(2) by auto
    then show "length c = ?K" using slice_length[OF assms(1)] by simp
  qed
  have a: "agg_probs (map (Array (d # ds)) (?sl 0 # ?rest)) =
         Inr (Array (d # ds) (map (\<lambda>k. dsub (Fin 1)
                                   (fold (\<lambda>c a. dmul a (dsub (Fin 1) (c ! k))) ?rest (dsub (Fin 1) (?sl 0 ! k))))
                           [0..<?K]))"
    using agg_probs_same[OF lens] .
  have "map (\<lambda>k. dsub (Fin 1)
                 (fold (\<lambda>c a. dmul a (dsub (Fin 1) (c ! k))) ?rest (dsub (Fin 1) (?sl 0 ! k))))
            [0..<?K]
        = map (collapsed_cell T ?K cs) [0..<?K]"
  proof (rule map_cong)
    fix k assume "k \<in> set [0..<?K]"
    then have k: "k < ?K" by simp
    have s0: "?sl 0 ! k = cs ! k" using slice_nth[OF assms(1,2) k] by simp
    show "dsub (Fin 1) (fold (\<lambda>c a. dmul a (dsub (Fin 1) (c ! k))) ?rest (dsub (Fin 1) (?sl 0 ! k)))
          = collapsed_cell T ?K cs k"
      unfolding collapsed_cell_def s0 by (simp only: fold_slices[OF assms(1) k])
  qed simp
  then show ?thesis using u a by (simp only: agg_probs_unpacked_def sum.case)
qed

text \<open>
  Claim C7. \<^verbatim>\<open>_save\<close> unpacks the 6-D matrix into its \<open>T\<close> slices along the first
  axis, that of the tectonic region types, and combines them with \<open>agg_probs\<close> into
  the collapsed matrix, whose cells are those of \<open>collapsed_cell\<close>. For every entry of
  the table of extraction functions that is requested, the dataset of its name holds
  the function applied to the full matrix when the name ends in \<^verbatim>\<open>TRT\<close>, and to the
  collapsed matrix otherwise; an entry that is not requested leaves its dataset as it
  was.
\<close>

theorem save_pmfs_by_name:
  assumes "distinct (map fst (pmf_map self))"
    and "site_id < length (site_lons self)" "site_id < length (site_lats self)"
    and "poe_id self poe = Some pid"
    and "lon_edges (calc_edges self) site_id \<noteq> None"
    and "lat_edges (calc_edges self) site_id \<noteq> None"
    and "length cs = T * prod_list (d # ds)" "0 < T"
  shows "\<exists>slices aggmatrix store'.
      unpack (Array (T # d # ds) cs) = Inr slices \<and>
      length slices = T \<and>
      agg_probs slices = Inr aggmatrix \<and>
      aggmatrix = Array (d # ds)
         (map (collapsed_cell T (prod_list (d # ds)) cs) [0..<prod_list (d # ds)]) \<and>
      save self dskey site_id rlz_id poe imt (Array (T # d # ds) cs) store = Inr store' \<and>
      (\<forall>kf\<in>set (pmf_map self).
         store' (disp_name dskey rlz_id imt site_id pid @ fst kf) =
           (if requested (disagg_outputs self) (fst kf)
            then Some (snd kf (if endswith (fst kf) ''TRT'' then Array (T # d # ds) cs
                               else aggmatrix))
            else store (disp_name dskey rlz_id imt site_id pid @ fst kf)))"
proof -
  let ?m6 = "Array (T # d # ds) cs"
  let ?agg = "Array (d # ds)
         (map (collapsed_cell T (prod_list (d # ds)) cs) [0..<prod_list (d # ds)])"
  let ?name = "disp_name dskey rlz_id imt site_id pid"
  let ?store' = "store_pmfs (disagg_outputs self) ?name ?m6 ?agg (pmf_map self) store"
  have c: "agg_probs_unpacked ?m6 = Inr ?agg" using agg_probs_unpacked_closed[OF assms(7,8)] .
  obtain slices where u: "unpack ?m6 = Inr slices" and n: "length slices = T" by simp
  have a: "agg_probs slices = Inr ?agg" using c u by (simp add: agg_probs_unpacked_def)
  have s: "save self dskey site_id rlz_id poe imt ?m6 store = Inr ?store'"
    using assms(2-6) c by (simp add: save_def del: unpack.simps)
  have l: "\<forall>kf\<in>set (pmf_map self).
         ?store' (?name @ fst kf) =
           (if requested (disagg_outputs self) (fst kf)
            then Some (snd kf (if endswith (fst kf) ''TRT'' then ?m6 else ?agg))
            else store (?name @ fst kf))"
  proof
    fix kf assume "kf \<in> set (pmf_map self)"
    then have "(fst kf, snd kf) \<in> set (pmf_map self)" by simp
    then show "?store' (?name @ fst kf) =
           (if requested (disagg_outputs self) (fst kf)
            then Some (snd kf (if endswith (fst kf) ''TRT'' then ?m6 else ?agg))
            else store (?name @ fst kf))"
      by (rule store_pmfs_lookup[OF assms(1)])
  qed
  show ?thesis using u n a s l by blast
qed

lemma example_collapsed:
  "map (collapsed_cell 2 (prod_list [1]) [Fin (1 / 2), Fin (1 / 2)]) [0..<prod_list [1]] = [Fin (3 / 4)]"
  by (simp add: collapsed_cell_def upt_rec fl_half fl_quarter fl_three_quarters)

text \<open>
  A matrix of two slices with the cell one half: \<^verbatim>\<open>Mag\<close> is stored from the collapsed
  matrix \<open>[0.75]\<close>, \<^verbatim>\<open>TRT\<close> from the full matrix, and \<^verbatim>\<open>Dist\<close>, which is not requested,
  is not stored.
\<close>

theorem save_pmfs_by_name_witness:
  "\<exists>store'. save example_calc ''disagg'' 0 (Rlz 0) (Some (Fin (1 / 2))) ''PGA''
                (Array [2, 1] [Fin (1 / 2), Fin (1 / 2)]) Map.empty = Inr store'
     \<and> agg_probs [Array [1] [Fin (1 / 2)], Array [1] [Fin (1 / 2)]] = Inr (Array [1] [Fin (3 / 4)])
     \<and> store' ''disagg/rlz-0-PGA-sid-0-poe-0/Mag'' = Some (Array [1] [Fin (3 / 4)])
     \<and> store' ''disagg/rlz-0-PGA-sid-0-poe-0/TRT'' = Some (Array [2, 1] [Fin (1 / 2), Fin (1 / 2)])
     \<and> store' ''disagg/rlz-0-PGA-sid-0-poe-0/Dist'' = None"
proof -
  have h: "distinct (map fst (pmf_map example_calc))"
    "0 < length (site_lons example_calc)" "0 < length (site_lats example_calc)"
    "poe_id example_calc (Some (Fin (1 / 2))) = Some 0"
    "lon_edges (calc_edges example_calc) 0 \<noteq> None"
    "lat_edges (calc_edges example_calc) 0 \<noteq> None"
    "length [Fin (1 / 2), Fin (1 / 2)] = 2 * prod_list (1 # [])" "0 < (2 :: nat)"
    by (simp_all add: example_calc_def example_edges_def)
  obtain slices aggmatrix store' where
    un: "unpack (Array (2 # 1 # []) [Fin (1 / 2), Fin (1 / 2)]) = Inr slices"
    and ap: "agg_probs slices = Inr aggmatrix"
    and agg: "aggmatrix = Array (1 # [])
         (map (collapsed_cell 2 (prod_list (1 # [])) [Fin (1 / 2), Fin (1 / 2)]) [0..<prod_list (1 # [])])"
    and sv: "save example_calc ''disagg'' 0 (Rlz 0) (Some (Fin (1 / 2))) ''PGA''
                (Array (2 # 1 # []) [Fin (1 / 2), Fin (1 / 2)]) Map.empty = Inr store'"
    and all: "\<forall>kf\<in>set (pmf_map example_calc).
         store' (disp_name ''disagg'' (Rlz 0) ''PGA'' 0 0 @ fst kf) =
           (if requested (disagg_outputs example_calc) (fst kf)
            then Some (snd kf (if endswith (fst kf) ''TRT'' then Array (2 # 1 # []) [Fin (1 / 2), Fin (1 / 2)]
                               else aggmatrix))
            else Map.empty (disp_name ''disagg'' (Rlz 0) ''PGA'' 0 0 @ fst kf))"
    using save_pmfs_by_name[OF h, where dskey = "''disagg''" and rlz_id = "Rlz 0"
            and imt = "''PGA''" and store = Map.empty] by blast
  have ag: "aggmatrix = Array [1] [Fin (3 / 4)]" using agg example_collapsed by simp
  have sl: "slices = [Array [1] [Fin (1 / 2)], Array [1] [Fin (1 / 2)]]"
    using un by (simp add: upt_rec)
  have a2: "agg_probs [Array [1] [Fin (1 / 2)], Array [1] [Fin (1 / 2)]] = Inr (Array [1] [Fin (3 / 4)])"
    using ap sl ag by simp
  have tbl: "pmf_map example_calc = [(''Mag'', \<lambda>m. m), (''Dist'', \<lambda>m. m), (''TRT'', \<lambda>m. m)]"
    and outs: "disagg_outputs example_calc = [''Mag'', ''TRT'']"
    by (simp_all add: example_calc_def)
  have m: "store' (''disagg/rlz-0-PGA-sid-0-poe-0/'' @ ''Mag'') = Some (Array [1] [Fin (3 / 4)])"
    using all ag by (simp add: tbl outs example_name requested_def endswith_def)
  have t: "store' (''disagg/rlz-0-PGA-sid-0-poe-0/'' @ ''TRT'') = Some (Array [2, 1] [Fin (1 / 2), Fin (1 / 2)])"
    using all ag by (simp add: tbl outs example_name requested_def endswith_def)
  have d: "store' (''disagg/rlz-0-PGA-sid-0-poe-0/'' @ ''Dist'') = None"
    using all ag by (simp add: tbl outs example_name requested_def endswith_def)
  show ?thesis using sv a2 m t d by (intro exI[of _ store']) simp
qed

section \<open>The check of the requested probabilities\<close>














end
